theory Spec2Isabelle
  imports Main "HOL-Library.AList" "HOL-Library.Char_ord" "HOL-Library.List_Lexorder" "HOL-Library.Word"
begin

section \<open>Python primitives used by the chunking code\<close>

text \<open>
  A Python \<open>str\<close> is modelled as a \<^typ>\<open>string\<close> (a list of characters), a Python
  \<open>int\<close> as an \<^typ>\<open>int\<close>. Slicing and \<open>str.rfind\<close> clamp their indices the way
  CPython does: a negative index counts from the end, and whatever is still out of range
  is cut to the nearest end of the string. Neither operation raises.
\<close>

definition slice_index :: "int \<Rightarrow> int \<Rightarrow> int" where
  "slice_index n i = (if i < 0 then max 0 (i + n) else min i n)"

definition py_slice :: "'a list \<Rightarrow> int \<Rightarrow> int \<Rightarrow> 'a list" where
  "py_slice xs i j =
     (let n = int (length xs);
          a = nat (slice_index n i);
          b = nat (slice_index n j)
      in drop a (take b xs))"

text \<open>\<open>rfind_below xs c a b\<close> scans the positions \<open>b - 1, b - 2, \<dots>, a\<close> for \<open>c\<close>;
  the result is the position found, or \<open>-1\<close>.\<close>

primrec rfind_below :: "'a list \<Rightarrow> 'a \<Rightarrow> nat \<Rightarrow> nat \<Rightarrow> int" where
  "rfind_below xs c a 0 = - 1"
| "rfind_below xs c a (Suc k) =
     (if k < a then - 1 else if xs ! k = c then int k else rfind_below xs c a k)"

definition py_rfind :: "'a list \<Rightarrow> 'a \<Rightarrow> int \<Rightarrow> int \<Rightarrow> int" where
  "py_rfind xs c i j =
     (let n = int (length xs);
          a = nat (slice_index n i);
          b = nat (slice_index n j)
      in rfind_below xs c a b)"

definition newline :: char where
  "newline = CHR 0x0A"

section \<open>artifacts/chunking.py: split_text_on_newlines\<close>

text \<open>
  One pass through the body of the \<open>while\<close> loop: from the cursor it computes the segment
  that is appended and the new cursor. The test \<open>newline_break > cursor + max_chars * 0.5\<close>
  is written without the fraction, as \<open>2 * newline_break > 2 * cursor + max_chars\<close>; the
  two agree as long as the numbers are below \<open>2^53\<close>, where the float arithmetic is exact.
\<close>

definition split_step :: "string \<Rightarrow> int \<Rightarrow> int \<Rightarrow> string \<times> int" where
  "split_step text max_chars cursor =
     (let length = int (length text);
          limit0 = min length (cursor + max_chars);
          limit =
            (if limit0 < length then
               (let newline_break = py_rfind text newline cursor limit0
                in if 2 * newline_break > 2 * cursor + max_chars
                   then newline_break + 1 else limit0)
             else limit0);
          segment0 = py_slice text cursor limit;
          segment = (if segment0 = [] then py_slice text cursor (cursor + max_chars) else segment0)
      in (segment, limit))"

text \<open>The loop itself. It need not terminate (with \<open>max_chars = 0\<close> the cursor never
  moves), so it is a partial function: \<open>None\<close> stands for a run that never returns.\<close>

partial_function (option) split_loop :: "string \<Rightarrow> int \<Rightarrow> int \<Rightarrow> string list \<Rightarrow> string list option" where
  "split_loop text max_chars cursor chunks =
     (if cursor < int (length text)
      then split_loop text max_chars (snd (split_step text max_chars cursor))
             (chunks @ [fst (split_step text max_chars cursor)])
      else Some chunks)"

declare split_loop.simps [code]

definition split_text_on_newlines :: "string \<Rightarrow> int \<Rightarrow> string list option" where
  "split_text_on_newlines text max_chars =
     (if text = [] then Some [[]] else split_loop text max_chars 0 [])"

subsection \<open>The break-point policy, as the specification words it\<close>

text \<open>
  The window that starts at position \<open>c\<close> covers the positions \<open>c, \<dots>, c + L - 1\<close>.
  If it reaches the end of the text, the chunk runs to the end. Otherwise the chunk ends
  right after the last newline of the window when that newline lies past the midpoint
  (its position is greater than \<open>c + L / 2\<close>), and after \<open>L\<close> characters when it does
  not or when the window holds no newline. \<open>follows_policy T L c chunks\<close> says that
  \<open>chunks\<close> are exactly the pieces this policy cuts from position \<open>c\<close> on.
\<close>

definition newlines_in :: "string \<Rightarrow> nat \<Rightarrow> nat \<Rightarrow> nat set" where
  "newlines_in T a b = {p. a \<le> p \<and> p < b \<and> T ! p = newline}"

definition spec_break :: "string \<Rightarrow> int \<Rightarrow> nat \<Rightarrow> nat" where
  "spec_break T L c =
     (if int (length T) \<le> int c + L then length T
      else (let W = newlines_in T c (nat (int c + L))
            in if W \<noteq> {} \<and> 2 * int c + L < 2 * int (Max W) then Max W + 1
               else nat (int c + L)))"

fun follows_policy :: "string \<Rightarrow> int \<Rightarrow> nat \<Rightarrow> string list \<Rightarrow> bool" where
  "follows_policy T L c [] = (length T \<le> c)"
| "follows_policy T L c (x # xs) =
     (c < length T \<and> x = take (spec_break T L c - c) (drop c T)
      \<and> follows_policy T L (spec_break T L c) xs)"


section \<open>Chunk naming scheme\<close>

text \<open>\<open>str(n)\<close> for a non-negative integer: its decimal digits, without padding. Part
  numbers come from \<open>enumerate(\<dots>, start=1)\<close> and \<open>len\<close>, so they are naturals.\<close>

fun str_nat :: "nat \<Rightarrow> string" where
  "str_nat n = (if n < 10 then [char_of (48 + n)]
                else str_nat (n div 10) @ [char_of (48 + n mod 10)])"

declare str_nat.simps [simp del]

text \<open>The name \<open>f"{base_name}_part_{index}_of_{total}{extension}"\<close> that the chunk
  writers build, as a path component; the extension carries its own dot.\<close>

definition chunk_filename :: "string \<Rightarrow> nat \<Rightarrow> nat \<Rightarrow> string \<Rightarrow> string" where
  "chunk_filename base_name index total_parts extension =
     base_name @ ''_part_'' @ str_nat index @ ''_of_'' @ str_nat total_parts @ extension"

subsection \<open>Parsing a name\<close>

text \<open>
  The parser works on a Python \<open>str\<close>, which may hold any code point: a name is a list
  of code points here (\<open>ustr\<close>), and \<open>ascii\<close> turns a literal into one. The pattern is a
  \<open>str\<close> pattern compiled without \<open>re.ASCII\<close>, so \<open>\d\<close> accepts every decimal digit of
  Unicode, and \<open>int\<close> reads them all. Which code points are decimal digits, and with what
  value, is a table of the Python runtime: it is the parameter \<open>dec\<close>, and \<open>ascii_digits\<close>
  states what every such table says below \<open>U+0080\<close>: the digits there are \<open>0\<close> to \<open>9\<close>.
\<close>

type_synonym ustr = "nat list"

definition ascii :: "string \<Rightarrow> ustr" where
  "ascii s = map of_char s"


definition is_digit :: "(nat \<Rightarrow> nat option) \<Rightarrow> nat \<Rightarrow> bool" where
  "is_digit dec c = (dec c \<noteq> None)"

text \<open>\<open>int(group)\<close> on a run of decimal digits.\<close>

definition int_of_digits :: "(nat \<Rightarrow> nat option) \<Rightarrow> ustr \<Rightarrow> nat" where
  "int_of_digits dec ds = foldl (\<lambda>acc c. 10 * acc + the (dec c)) 0 ds"

definition strip_prefix :: "'a list \<Rightarrow> 'a list \<Rightarrow> 'a list option" where
  "strip_prefix p s = (if take (length p) s = p then Some (drop (length p) s) else None)"

text \<open>
  \<open>CHUNK_NAME_RE = re.compile(r"_part_(\d+)_of_(\d+)\.")\<close>. \<open>match_here\<close> is the match
  attempt at the start of its argument: the literal \<open>_part_\<close>, the longest run of digits
  (at least one), the literal \<open>_of_\<close>, the longest run of digits (at least one), and a
  dot. Giving a digit back never helps, since the character after a shorter run is a
  digit where the pattern wants \<open>_\<close> or a dot, so the greedy attempt is the only one.
  \<open>re_search\<close> is \<open>CHUNK_NAME_RE.search\<close>: the match at the leftmost position that has
  one.
\<close>

definition match_here :: "(nat \<Rightarrow> nat option) \<Rightarrow> ustr \<Rightarrow> (ustr \<times> ustr) option" where
  "match_here dec s =
     (case strip_prefix (ascii ''_part_'') s of
        None \<Rightarrow> None
      | Some r1 \<Rightarrow>
          (let g1 = takeWhile (is_digit dec) r1 in
           if g1 = [] then None
           else (case strip_prefix (ascii ''_of_'') (dropWhile (is_digit dec) r1) of
                   None \<Rightarrow> None
                 | Some r2 \<Rightarrow>
                     (let g2 = takeWhile (is_digit dec) r2 in
                      if g2 = [] then None
                      else (case dropWhile (is_digit dec) r2 of
                              c # _ \<Rightarrow> if c = of_char CHR ''.'' then Some (g1, g2) else None
                            | [] \<Rightarrow> None)))))"

fun re_search :: "(nat \<Rightarrow> nat option) \<Rightarrow> ustr \<Rightarrow> (ustr \<times> ustr) option" where
  "re_search dec [] = match_here dec []"
| "re_search dec (c # cs) =
     (case match_here dec (c # cs) of Some m \<Rightarrow> Some m | None \<Rightarrow> re_search dec cs)"

text \<open>\<open>artifact_fanout.parse_chunk_indices\<close>.\<close>

definition parse_chunk_indices :: "(nat \<Rightarrow> nat option) \<Rightarrow> ustr \<Rightarrow> nat \<times> nat" where
  "parse_chunk_indices dec name =
     (case re_search dec name of
        None \<Rightarrow> (0, 0)
      | Some (g1, g2) \<Rightarrow> (int_of_digits dec g1, int_of_digits dec g2))"


text \<open>A table with the digits \<open>0\<close> to \<open>9\<close> and the Arabic-Indic digits \<open>U+0660\<close> to
  \<open>U+0669\<close>, to run the parser on.\<close>

definition sample_digits :: "nat \<Rightarrow> nat option" where
  "sample_digits c =
     (if 48 \<le> c \<and> c \<le> 57 then Some (c - 48)
      else if 0x660 \<le> c \<and> c \<le> 0x669 then Some (c - 0x660)
      else None)"

section \<open>The file system and the console\<close>

text \<open>
  The code works on files through \<open>pathlib\<close>. The model keeps what the claims talk about:
  which regular files exist, what each holds and when it was last written, which
  directories were made, and what was printed. A path is a string; a path either names a
  readable regular file or names none. Every write stamps the file with the current time
  and lets the clock advance, so a rewritten file always shows a new modification time.
  The content type is a parameter: text for the generators, which read and write files
  as UTF-8 text, bytes for the idempotent writer.
\<close>

record 'c inode =
  content :: 'c
  mtime :: nat

datatype message = Info string | Warn string

record 'c fs =
  files :: "(string \<times> 'c inode) list"
  dirs :: "string set"
  clock :: nat
  out :: "message list"

definition exists_file :: "'c fs \<Rightarrow> string \<Rightarrow> bool" where
  "exists_file s p = (map_of (files s) p \<noteq> None)"

definition read_file :: "'c fs \<Rightarrow> string \<Rightarrow> 'c option" where
  "read_file s p = map_option content (map_of (files s) p)"


definition write_file :: "string \<Rightarrow> 'c \<Rightarrow> 'c fs \<Rightarrow> 'c fs" where
  "write_file p data s =
     s\<lparr>files := AList.update p \<lparr>content = data, mtime = clock s\<rparr> (files s),
       clock := Suc (clock s)\<rparr>"

definition unlink :: "string \<Rightarrow> 'c fs \<Rightarrow> 'c fs" where
  "unlink p s = s\<lparr>files := AList.delete p (files s)\<rparr>"

definition print :: "message \<Rightarrow> 'c fs \<Rightarrow> 'c fs" where
  "print m s = s\<lparr>out := out s @ [m]\<rparr>"

text \<open>
  \<open>dest_dir / filename\<close> on a POSIX system. \<open>pathlib\<close> splits both sides at the
  slashes, drops the empty components and the components \<open>.\<close>, and joins what is left
  with single slashes; a right-hand side that starts with a slash replaces the left-hand
  side. The root is \<open>/\<close>, or \<open>//\<close> for a path that starts with exactly two slashes, and
  the path without any component is written \<open>.\<close>.
\<close>

fun split_on :: "'a \<Rightarrow> 'a list \<Rightarrow> 'a list list" where
  "split_on c [] = [[]]"
| "split_on c (x # xs) =
     (if x = c then [] # split_on c xs
      else (case split_on c xs of [] \<Rightarrow> [[x]] | p # ps \<Rightarrow> (x # p) # ps))"

fun join :: "'a list \<Rightarrow> 'a list list \<Rightarrow> 'a list" where
  "join sep [] = []"
| "join sep [x] = x"
| "join sep (x # y # ys) = x @ sep @ join sep (y # ys)"

definition path_parts :: "string \<Rightarrow> string list" where
  "path_parts p = filter (\<lambda>part. part \<noteq> [] \<and> part \<noteq> ''.'') (split_on CHR ''/'' p)"

definition path_root :: "string \<Rightarrow> string" where
  "path_root p =
     (if take 2 p = ''//'' \<and> take 3 p \<noteq> ''///'' then ''//''
      else if take 1 p = ''/'' then ''/''
      else [])"

definition render_path :: "string \<Rightarrow> string list \<Rightarrow> string" where
  "render_path root parts =
     (if root = [] \<and> parts = [] then ''.'' else root @ join ''/'' parts)"

definition joinpath :: "string \<Rightarrow> string \<Rightarrow> string" where
  "joinpath d f =
     (if path_root f \<noteq> [] then render_path (path_root f) (path_parts f)
      else render_path (path_root d) (path_parts d @ path_parts f))"

text \<open>The directories above a path: its prefixes that end right before a slash.\<close>

definition ancestors :: "string \<Rightarrow> string list" where
  "ancestors p = map (\<lambda>i. take i p) (filter (\<lambda>i. p ! i = CHR ''/'') [1..<length p])"

text \<open>\<open>path.mkdir(parents=True, exist_ok=True)\<close>, and the same for \<open>path.parent\<close>.\<close>

definition mkdir_parents :: "string \<Rightarrow> 'c fs \<Rightarrow> 'c fs" where
  "mkdir_parents p s = s\<lparr>dirs := dirs s \<union> set (ancestors p) \<union> {p}\<rparr>"

definition mkdir_parent_of :: "string \<Rightarrow> 'c fs \<Rightarrow> 'c fs" where
  "mkdir_parent_of p s = s\<lparr>dirs := dirs s \<union> set (ancestors p)\<rparr>"

section \<open>pipelines/common/checksum.py\<close>

text \<open>
  \<open>hashlib.sha256\<close> is a parameter \<open>H\<close> of the model: the results below hold for every
  hash function. \<open>sha256_file\<close> gives \<open>None\<close> for a path without a file.
\<close>

definition sha256_bytes :: "('c \<Rightarrow> 'h) \<Rightarrow> 'c \<Rightarrow> 'h" where
  "sha256_bytes H data = H data"

definition sha256_file :: "('c \<Rightarrow> 'h) \<Rightarrow> 'c fs \<Rightarrow> string \<Rightarrow> 'h option" where
  "sha256_file H s path = (if \<not> exists_file s path then None else map_option H (read_file s path))"

definition write_if_changed :: "('c \<Rightarrow> 'h) \<Rightarrow> string \<Rightarrow> 'c \<Rightarrow> 'c fs \<Rightarrow> bool \<times> 'c fs" where
  "write_if_changed H path data s =
     (let expected = sha256_bytes H data;
          current = sha256_file H s path
      in if current = Some expected then (False, s)
         else (True, write_file path data (mkdir_parent_of path s)))"

section \<open>pipelines/common/splitters.py\<close>

text \<open>
  This module crosses the encoding boundary: it reads bytes, decodes them as UTF-8,
  splits, encodes and writes bytes. Here a \<open>str\<close> is a list of code points (\<open>ustr\<close>) and a
  \<open>bytes\<close> value a list of 8-bit words. An exception of the source is the \<open>Inl\<close> branch
  of a result; a loop that may run forever is a partial function, as before.
\<close>

type_synonym byte = "8 word"
type_synonym bytes = "byte list"

datatype py_error =
  FileNotFoundError | UnicodeDecodeError | UnicodeEncodeError | ValueError | TypeError
  | JSONDecodeError | PdfReadError

subsection \<open>The codecs\<close>

text \<open>
  \<open>str.encode("utf-8")\<close> refuses the surrogates \<open>U+D800\<close> to \<open>U+DFFF\<close>; a \<open>str\<close> holds no
  code point above \<open>U+10FFFF\<close>. \<open>bytes.decode("utf-8")\<close> is strict: it accepts exactly the
  well-formed sequences (no stray or missing continuation byte, no overlong form, no
  surrogate, nothing above \<open>U+10FFFF\<close>). \<open>None\<close> stands for the codec's exception.
\<close>

definition scalar_value :: "nat \<Rightarrow> bool" where
  "scalar_value cp = (cp < 0x110000 \<and> \<not> (0xD800 \<le> cp \<and> cp \<le> 0xDFFF))"

definition well_formed :: "ustr \<Rightarrow> bool" where
  "well_formed s = list_all scalar_value s"

definition encode_char :: "nat \<Rightarrow> bytes option" where
  "encode_char cp =
     (if cp < 0x80 then Some [of_nat cp]
      else if cp < 0x800 then Some [of_nat (0xC0 + cp div 64), of_nat (0x80 + cp mod 64)]
      else if cp < 0x10000 then
        (if 0xD800 \<le> cp \<and> cp \<le> 0xDFFF then None
         else Some [of_nat (0xE0 + cp div 4096), of_nat (0x80 + cp div 64 mod 64),
                    of_nat (0x80 + cp mod 64)])
      else if cp < 0x110000 then
        Some [of_nat (0xF0 + cp div 262144), of_nat (0x80 + cp div 4096 mod 64),
              of_nat (0x80 + cp div 64 mod 64), of_nat (0x80 + cp mod 64)]
      else None)"

fun encode_utf8 :: "ustr \<Rightarrow> bytes option" where
  "encode_utf8 [] = Some []"
| "encode_utf8 (cp # s) =
     (case encode_char cp of
        None \<Rightarrow> None
      | Some bs \<Rightarrow> map_option ((@) bs) (encode_utf8 s))"

definition continuation :: "byte \<Rightarrow> bool" where
  "continuation b = (0x80 \<le> b \<and> b \<le> 0xBF)"

definition low6 :: "byte \<Rightarrow> nat" where
  "low6 b = unat b - 0x80"

text \<open>The code point of a two-, three- and four-byte sequence, when the sequence is
  well formed.\<close>

definition seq2 :: "byte \<Rightarrow> byte \<Rightarrow> nat option" where
  "seq2 b0 b1 =
     (if continuation b1 then Some ((unat b0 - 0xC0) * 64 + low6 b1) else None)"

definition seq3 :: "byte \<Rightarrow> byte \<Rightarrow> byte \<Rightarrow> nat option" where
  "seq3 b0 b1 b2 =
     (let cp = (unat b0 - 0xE0) * 4096 + low6 b1 * 64 + low6 b2
      in if continuation b1 \<and> continuation b2 \<and> 0x800 \<le> cp
            \<and> \<not> (0xD800 \<le> cp \<and> cp \<le> 0xDFFF)
         then Some cp else None)"

definition seq4 :: "byte \<Rightarrow> byte \<Rightarrow> byte \<Rightarrow> byte \<Rightarrow> nat option" where
  "seq4 b0 b1 b2 b3 =
     (let cp = (unat b0 - 0xF0) * 262144 + low6 b1 * 4096 + low6 b2 * 64 + low6 b3
      in if continuation b1 \<and> continuation b2 \<and> continuation b3
            \<and> 0x10000 \<le> cp \<and> cp < 0x110000
         then Some cp else None)"

text \<open>\<open>push cp rest\<close> puts a decoded code point in front of the decoded rest, and fails
  when either failed.\<close>

definition push :: "nat option \<Rightarrow> ustr option \<Rightarrow> ustr option" where
  "push cp rest =
     (case cp of None \<Rightarrow> None | Some c \<Rightarrow> map_option ((#) c) rest)"

fun decode_utf8 :: "bytes \<Rightarrow> ustr option" where
  "decode_utf8 [] = Some []"
| "decode_utf8 [b0] = (if b0 < 0x80 then Some [unat b0] else None)"
| "decode_utf8 [b0, b1] =
     (if b0 < 0x80 then push (Some (unat b0)) (decode_utf8 [b1])
      else if 0xC2 \<le> b0 \<and> b0 \<le> 0xDF then push (seq2 b0 b1) (Some [])
      else None)"
| "decode_utf8 [b0, b1, b2] =
     (if b0 < 0x80 then push (Some (unat b0)) (decode_utf8 [b1, b2])
      else if 0xC2 \<le> b0 \<and> b0 \<le> 0xDF then push (seq2 b0 b1) (decode_utf8 [b2])
      else if 0xE0 \<le> b0 \<and> b0 \<le> 0xEF then push (seq3 b0 b1 b2) (Some [])
      else None)"
| "decode_utf8 (b0 # b1 # b2 # b3 # r) =
     (if b0 < 0x80 then push (Some (unat b0)) (decode_utf8 (b1 # b2 # b3 # r))
      else if 0xC2 \<le> b0 \<and> b0 \<le> 0xDF then push (seq2 b0 b1) (decode_utf8 (b2 # b3 # r))
      else if 0xE0 \<le> b0 \<and> b0 \<le> 0xEF then push (seq3 b0 b1 b2) (decode_utf8 (b3 # r))
      else if 0xF0 \<le> b0 \<and> b0 \<le> 0xF4 then push (seq4 b0 b1 b2 b3) (decode_utf8 r)
      else None)"

text \<open>\<open>bytes.decode("latin-1", "ignore")\<close>: every byte is a code point of its own, so
  the error handler has nothing to ignore.\<close>

definition decode_latin1 :: "bytes \<Rightarrow> ustr" where
  "decode_latin1 bs = map unat bs"

subsection \<open>Splitting by bytes\<close>

text \<open>The inner \<open>while slice_end > 0\<close> loop: it tries the windows of \<open>slice_end\<close>,
  \<open>slice_end - 1\<close>, \<dots>, 1 bytes and stops at the first that decodes; \<open>None\<close> is the
  loop's \<open>else\<close> branch, reached when none does.\<close>

fun shrink :: "bytes \<Rightarrow> int \<Rightarrow> nat \<Rightarrow> (ustr \<times> nat) option" where
  "shrink encoded cursor 0 = None"
| "shrink encoded cursor (Suc k) =
     (case decode_utf8 (py_slice encoded cursor (cursor + int (Suc k))) of
        Some chunk \<Rightarrow> Some (chunk, Suc k)
      | None \<Rightarrow> shrink encoded cursor k)"

text \<open>One pass through the outer loop: the chunk that is appended and the new cursor.\<close>

definition bytes_step :: "bytes \<Rightarrow> int \<Rightarrow> int \<Rightarrow> ustr \<times> int" where
  "bytes_step encoded limit cursor =
     (let window = py_slice encoded cursor (cursor + limit)
      in case decode_utf8 window of
           Some chunk \<Rightarrow> (chunk, cursor + int (length window))
         | None \<Rightarrow>
             (case shrink encoded cursor (nat limit) of
                Some (chunk, slice_end) \<Rightarrow> (chunk, cursor + int slice_end)
              | None \<Rightarrow>
                  (decode_latin1 (py_slice encoded cursor (cursor + limit)), cursor + limit)))"

partial_function (option) bytes_loop :: "bytes \<Rightarrow> int \<Rightarrow> int \<Rightarrow> ustr list \<Rightarrow> ustr list option" where
  "bytes_loop encoded limit cursor chunks =
     (if cursor < int (length encoded)
      then bytes_loop encoded limit (snd (bytes_step encoded limit cursor))
             (chunks @ [fst (bytes_step encoded limit cursor)])
      else Some chunks)"

declare bytes_loop.simps [code]

text \<open>\<open>_split_by_bytes\<close>.\<close>

definition split_by_bytes :: "ustr \<Rightarrow> int \<Rightarrow> (py_error + ustr list) option" where
  "split_by_bytes payload limit =
     (if limit \<le> 0 then Some (Inr [payload])
      else (case encode_utf8 payload of
              None \<Rightarrow> Some (Inl UnicodeEncodeError)
            | Some encoded \<Rightarrow>
                if int (length encoded) \<le> limit then Some (Inr [payload])
                else map_option Inr (bytes_loop encoded limit 0 [])))"

subsection \<open>Splitting by characters, nodes, items and pages\<close>

text \<open>\<open>_split_text\<close>.\<close>

partial_function (option) text_loop :: "'a list \<Rightarrow> int \<Rightarrow> int \<Rightarrow> 'a list list \<Rightarrow> 'a list list option" where
  "text_loop payload max_chars cursor chunks =
     (if cursor < int (length payload)
      then text_loop payload max_chars (min (int (length payload)) (cursor + max_chars))
             (chunks @ [py_slice payload cursor (min (int (length payload)) (cursor + max_chars))])
      else Some chunks)"

declare text_loop.simps [code]

definition split_text :: "'a list \<Rightarrow> int \<Rightarrow> 'a list list option" where
  "split_text payload max_chars =
     (if max_chars \<le> 0 \<or> int (length payload) \<le> max_chars then Some [payload]
      else text_loop payload max_chars 0 [])"

text \<open>
  \<open>_split_html_by_nodes\<close>. The parser is outside the repository: \<open>body_children\<close> stands
  for \<open>list((soup.body or soup).children)\<close> of the parsed payload, and \<open>render\<close> for the
  serialisation of a group of nodes inside a fresh \<open>body\<close> element.
\<close>

partial_function (option) nodes_loop :: "('n list \<Rightarrow> ustr) \<Rightarrow> 'n list \<Rightarrow> int \<Rightarrow> int \<Rightarrow> ustr list \<Rightarrow> ustr list option" where
  "nodes_loop render nodes max_nodes cursor chunks =
     (if cursor < int (length nodes)
      then nodes_loop render nodes max_nodes (cursor + max_nodes)
             (chunks @ [render (py_slice nodes cursor (cursor + max_nodes))])
      else Some chunks)"

declare nodes_loop.simps [code]

definition split_html_by_nodes :: "(ustr \<Rightarrow> 'n list) \<Rightarrow> ('n list \<Rightarrow> ustr) \<Rightarrow> ustr \<Rightarrow> int \<Rightarrow> ustr list option" where
  "split_html_by_nodes body_children render payload max_nodes =
     (let nodes = body_children payload
      in if nodes = [] then Some [payload]
         else nodes_loop render nodes max_nodes 0 [])"

text \<open>
  The item loop of \<open>split_json\<close>. \<open>dumps\<close> stands for
  \<open>json.dumps(subset, ensure_ascii=False).encode("utf-8")\<close>. An absent \<open>max_bytes\<close> and
  \<open>max_bytes = 0\<close> both switch the byte ceiling off.
\<close>

definition json_step :: "('j list \<Rightarrow> bytes) \<Rightarrow> 'j list \<Rightarrow> int \<Rightarrow> int option \<Rightarrow> int \<Rightarrow> 'j list \<times> int" where
  "json_step dumps items max_items max_bytes cursor =
     (let subset = py_slice items cursor (cursor + max_items);
          cursor1 = cursor + max_items;
          too_big = (case max_bytes of
                       None \<Rightarrow> False
                     | Some mb \<Rightarrow> mb \<noteq> 0 \<and> int (length (dumps subset)) > mb \<and> length subset > 1);
          half = max 1 (length subset div 2)
      in if too_big then (take half subset, cursor1 - (int (length subset) - int half))
         else (subset, cursor1))"

partial_function (option) json_loop :: "('j list \<Rightarrow> bytes) \<Rightarrow> 'j list \<Rightarrow> int \<Rightarrow> int option \<Rightarrow> int \<Rightarrow> 'j list list \<Rightarrow> 'j list list option" where
  "json_loop dumps items max_items max_bytes cursor chunks =
     (if cursor < int (length items)
      then json_loop dumps items max_items max_bytes
             (snd (json_step dumps items max_items max_bytes cursor))
             (chunks @ [fst (json_step dumps items max_items max_bytes cursor)])
      else Some chunks)"

declare json_loop.simps [code]

text \<open>The value \<open>json.loads\<close> returns, and the item list \<open>split_json\<close> takes from it.
  \<open>list(data["chunks"])\<close> iterates an array, the keys of an object and the characters of
  a string, and raises \<open>TypeError\<close> on anything else.\<close>

datatype json =
  JNull | JBool bool | JNum string | JStr string | JArr "json list" | JObj "(string \<times> json) list"

definition items_of :: "json \<Rightarrow> py_error + json list" where
  "items_of data =
     (case data of
        JObj kvs \<Rightarrow>
          (case map_of kvs ''chunks'' of
             None \<Rightarrow> Inr [data]
           | Some (JArr xs) \<Rightarrow> Inr xs
           | Some (JObj kvs') \<Rightarrow> Inr (map (JStr \<circ> fst) kvs')
           | Some (JStr s) \<Rightarrow> Inr (map (\<lambda>c. JStr [c]) s)
           | Some _ \<Rightarrow> Inl TypeError)
      | JArr xs \<Rightarrow> Inr xs
      | _ \<Rightarrow> Inr [data])"

text \<open>\<open>range(0, stop, step)\<close> for a positive \<open>step\<close>.\<close>

definition range_step :: "nat \<Rightarrow> nat \<Rightarrow> nat list" where
  "range_step stop step = map (\<lambda>k. k * step) [0..<(stop + step - 1) div step]"

text \<open>The page groups of \<open>split_pdf\<close> for a document that has pages. \<open>write_pdf\<close> stands
  for a \<open>PdfWriter\<close> filled with the pages and written to a buffer. A step of zero makes
  \<open>range\<close> raise; a negative step gives no group at all.\<close>

definition pdf_chunks :: "('p list \<Rightarrow> bytes) \<Rightarrow> 'p list \<Rightarrow> int \<Rightarrow> py_error + bytes list" where
  "pdf_chunks write_pdf pages max_pages =
     (if max_pages = 0 then Inl ValueError
      else if max_pages < 0 then Inr []
      else Inr (map (\<lambda>start. write_pdf (py_slice pages (int start)
                                 (min (int (length pages)) (int start + max_pages))))
                  (range_step (length pages) (nat max_pages))))"

subsection \<open>Writing the chunks\<close>

text \<open>A source path, with the parts \<open>pathlib\<close> derives from it.\<close>

record pypath =
  parent :: string
  stem :: string
  suffix :: string

definition full_path :: "pypath \<Rightarrow> string" where
  "full_path p = joinpath (parent p) (stem p @ suffix p)"

text \<open>The loop of \<open>_write_chunks\<close> over \<open>enumerate(\<dots>, start=1)\<close>.\<close>

fun write_each :: "(bytes \<Rightarrow> 'h) \<Rightarrow> string \<Rightarrow> string \<Rightarrow> nat \<Rightarrow> string \<Rightarrow> nat \<Rightarrow> bytes list
    \<Rightarrow> string list \<Rightarrow> bytes fs \<Rightarrow> string list \<times> bytes fs" where
  "write_each H dest_dir base_name total_parts extension index [] written s = (written, s)"
| "write_each H dest_dir base_name total_parts extension index (payload # rest) written s =
     (let chunk_path = joinpath dest_dir (chunk_filename base_name index total_parts extension);
          (changed, s1) = write_if_changed H chunk_path payload s;
          s2 = (if changed then print (Info (''Chunk written: '' @ chunk_path)) s1
                else print (Info (''Chunk unchanged: '' @ chunk_path)) s1)
      in write_each H dest_dir base_name total_parts extension (Suc index) rest
           (written @ [chunk_path]) s2)"

text \<open>\<open>_write_chunks\<close>: an empty payload list is replaced by one empty payload, and the
  part count by 1.\<close>

definition splitters_write_chunks :: "(bytes \<Rightarrow> 'h) \<Rightarrow> pypath \<Rightarrow> string \<Rightarrow> bytes list \<Rightarrow> bytes fs
    \<Rightarrow> string list \<times> bytes fs" where
  "splitters_write_chunks H path extension payloads s =
     (let base_name = stem path;
          dest_dir = parent path;
          total_parts = (if payloads = [] then 1 else length payloads)
      in write_each H dest_dir base_name total_parts extension 1
           (if payloads = [] then [[]] else payloads) [] s)"

subsection \<open>The entry points\<close>

text \<open>
  \<open>path.read_text(encoding="utf-8")\<close> on the byte file system. The file is opened in
  text mode, so after decoding every \<open>CR LF\<close> and every lone \<open>CR\<close> is read as \<open>LF\<close>.
\<close>

fun universal_newlines :: "ustr \<Rightarrow> ustr" where
  "universal_newlines [] = []"
| "universal_newlines [c] = [if c = 13 then 10 else c]"
| "universal_newlines (c # d # r) =
     (if c = 13 \<and> d = 10 then 10 # universal_newlines r
      else if c = 13 then 10 # universal_newlines (d # r)
      else c # universal_newlines (d # r))"

definition read_text :: "bytes fs \<Rightarrow> string \<Rightarrow> py_error + ustr" where
  "read_text s p =
     (case read_file s p of
        None \<Rightarrow> Inl FileNotFoundError
      | Some bs \<Rightarrow>
          (case decode_utf8 bs of
             None \<Rightarrow> Inl UnicodeDecodeError
           | Some t \<Rightarrow> Inr (universal_newlines t)))"

text \<open>
  \<open>PdfReader(str(path))\<close> belongs to PyPDF2. It opens the file and raises on a file
  without bytes; what it finds in any other file is the parameter \<open>R\<close>, with \<open>None\<close> for
  a file it cannot read as PDF.
\<close>

definition pdf_reader :: "(bytes \<Rightarrow> 'p list option) \<Rightarrow> bytes fs \<Rightarrow> string \<Rightarrow> py_error + 'p list" where
  "pdf_reader R s p =
     (case read_file s p of
        None \<Rightarrow> Inl FileNotFoundError
      | Some bs \<Rightarrow>
          (if bs = [] then Inl PdfReadError
           else (case R bs of None \<Rightarrow> Inl PdfReadError | Some pages \<Rightarrow> Inr pages)))"

text \<open>\<open>split_pdf\<close>.\<close>

definition split_pdf :: "(bytes \<Rightarrow> 'h) \<Rightarrow> (bytes \<Rightarrow> 'p list option) \<Rightarrow> ('p list \<Rightarrow> bytes) \<Rightarrow> pypath
    \<Rightarrow> int \<Rightarrow> bytes fs \<Rightarrow> py_error + string list \<times> bytes fs" where
  "split_pdf H R write_pdf path max_pages s =
     (case pdf_reader R s (full_path path) of
        Inl e \<Rightarrow> Inl e
      | Inr pages \<Rightarrow>
          (if length pages = 0 then Inr (splitters_write_chunks H path ''.pdf'' [[]] s)
           else (case pdf_chunks write_pdf pages max_pages of
                   Inl e \<Rightarrow> Inl e
                 | Inr chunks \<Rightarrow> Inr (splitters_write_chunks H path ''.pdf'' chunks s))))"

text \<open>
  \<open>json.loads\<close> raises on the empty document; what it returns for any other document
  is the parameter \<open>P\<close>, with \<open>None\<close> for a document that is not JSON.
\<close>

definition json_loads :: "(ustr \<Rightarrow> json option) \<Rightarrow> ustr \<Rightarrow> py_error + json" where
  "json_loads P doc =
     (if doc = [] then Inl JSONDecodeError
      else (case P doc of None \<Rightarrow> Inl JSONDecodeError | Some v \<Rightarrow> Inr v))"

text \<open>\<open>split_json\<close>. \<open>dumps_indent\<close> stands for
  \<open>json.dumps(chunk, ensure_ascii=False, indent=2).encode("utf-8")\<close>.\<close>

definition split_json :: "(bytes \<Rightarrow> 'h) \<Rightarrow> (ustr \<Rightarrow> json option) \<Rightarrow> (json list \<Rightarrow> bytes)
    \<Rightarrow> (json list \<Rightarrow> bytes) \<Rightarrow> pypath \<Rightarrow> int option \<Rightarrow> int option \<Rightarrow> bytes fs
    \<Rightarrow> (py_error + string list \<times> bytes fs) option" where
  "split_json H P dumps dumps_indent path max_items max_bytes s =
     (case read_text s (full_path path) of
        Inl e \<Rightarrow> Some (Inl e)
      | Inr doc \<Rightarrow>
          (case json_loads P doc of
             Inl e \<Rightarrow> Some (Inl e)
           | Inr data \<Rightarrow>
               (case items_of data of
                  Inl e \<Rightarrow> Some (Inl e)
                | Inr items \<Rightarrow>
                    (let mi = (case max_items of None \<Rightarrow> int (length items) | Some m \<Rightarrow> m)
                     in case json_loop dumps items mi max_bytes 0 [] of
                          None \<Rightarrow> None
                        | Some chunks \<Rightarrow>
                            Some (Inr (splitters_write_chunks H path ''.json''
                                         (map dumps_indent chunks) s))))))"

text \<open>\<open>chunk.encode("utf-8") for chunk in chunks\<close>; the first chunk that cannot be
  encoded raises.\<close>

fun encode_all :: "ustr list \<Rightarrow> py_error + bytes list" where
  "encode_all [] = Inr []"
| "encode_all (c # cs) =
     (case encode_utf8 c of
        None \<Rightarrow> Inl UnicodeEncodeError
      | Some b \<Rightarrow> (case encode_all cs of Inl e \<Rightarrow> Inl e | Inr bs \<Rightarrow> Inr (b # bs)))"

definition write_text_chunks :: "(bytes \<Rightarrow> 'h) \<Rightarrow> pypath \<Rightarrow> string \<Rightarrow> ustr list option \<Rightarrow> bytes fs
    \<Rightarrow> (py_error + string list \<times> bytes fs) option" where
  "write_text_chunks H path extension chunks s =
     (case chunks of
        None \<Rightarrow> None
      | Some cs \<Rightarrow>
          (case encode_all cs of
             Inl e \<Rightarrow> Some (Inl e)
           | Inr payloads \<Rightarrow> Some (Inr (splitters_write_chunks H path extension payloads s))))"

text \<open>\<open>split_md\<close> and \<open>split_txt\<close>.\<close>

definition split_md :: "(bytes \<Rightarrow> 'h) \<Rightarrow> pypath \<Rightarrow> int \<Rightarrow> bytes fs
    \<Rightarrow> (py_error + string list \<times> bytes fs) option" where
  "split_md H path max_chars s =
     (case read_text s (full_path path) of
        Inl e \<Rightarrow> Some (Inl e)
      | Inr payload \<Rightarrow> write_text_chunks H path ''.md'' (split_text payload max_chars) s)"

definition split_txt :: "(bytes \<Rightarrow> 'h) \<Rightarrow> pypath \<Rightarrow> int \<Rightarrow> bytes fs
    \<Rightarrow> (py_error + string list \<times> bytes fs) option" where
  "split_txt H path max_chars s =
     (case read_text s (full_path path) of
        Inl e \<Rightarrow> Some (Inl e)
      | Inr payload \<Rightarrow> write_text_chunks H path ''.txt'' (split_text payload max_chars) s)"

text \<open>\<open>split_html\<close>. A limit that is absent or zero counts as not given; with neither
  limit the byte limit is 200000, and a node limit takes precedence over a byte limit.\<close>

definition truthy :: "int option \<Rightarrow> bool" where
  "truthy v = (case v of None \<Rightarrow> False | Some n \<Rightarrow> n \<noteq> 0)"

definition split_html :: "(bytes \<Rightarrow> 'h) \<Rightarrow> (ustr \<Rightarrow> 'n list) \<Rightarrow> ('n list \<Rightarrow> ustr) \<Rightarrow> pypath
    \<Rightarrow> int option \<Rightarrow> int option \<Rightarrow> bytes fs
    \<Rightarrow> (py_error + string list \<times> bytes fs) option" where
  "split_html H body_children render path max_bytes max_nodes s =
     (case read_text s (full_path path) of
        Inl e \<Rightarrow> Some (Inl e)
      | Inr payload \<Rightarrow>
          (let max_bytes' = (if \<not> truthy max_bytes \<and> \<not> truthy max_nodes then Some 200000
                             else max_bytes)
           in if truthy max_nodes
              then write_text_chunks H path ''.html''
                     (split_html_by_nodes body_children render payload (the max_nodes)) s
              else (case split_by_bytes payload (if truthy max_bytes' then the max_bytes' else 1) of
                      None \<Rightarrow> None
                    | Some (Inl e) \<Rightarrow> Some (Inl e)
                    | Some (Inr chunks) \<Rightarrow> write_text_chunks H path ''.html'' (Some chunks) s)))"

subsection \<open>The byte-window policy, as the specification words it\<close>

text \<open>
  From position \<open>c\<close> the window holds up to \<open>limit\<close> bytes. A length \<open>k\<close> is decodable
  when the first \<open>k\<close> bytes from \<open>c\<close> decode as UTF-8. The window is cut back to the
  greatest decodable length between 1 and \<open>limit\<close>; when there is none, the whole
  window is decoded as Latin-1 instead and the cursor moves on by \<open>limit\<close>.
\<close>

definition decodable :: "bytes \<Rightarrow> nat \<Rightarrow> nat \<Rightarrow> bool" where
  "decodable encoded c k = (decode_utf8 (take k (drop c encoded)) \<noteq> None)"

definition spec_window :: "bytes \<Rightarrow> int \<Rightarrow> nat \<Rightarrow> ustr \<times> int" where
  "spec_window encoded limit c =
     (let ks = {k. 1 \<le> k \<and> k \<le> nat limit \<and> decodable encoded c k}
      in if ks \<noteq> {}
         then (the (decode_utf8 (take (Max ks) (drop c encoded))),
               int (min (c + Max ks) (length encoded)))
         else (decode_latin1 (take (nat limit) (drop c encoded)), int c + limit))"


text \<open>\<open>follows_windows encoded limit c chunks\<close> says that \<open>chunks\<close> are exactly what
  the window policy cuts from position \<open>c\<close> to the end of the bytes.\<close>

fun follows_windows :: "bytes \<Rightarrow> int \<Rightarrow> nat \<Rightarrow> ustr list \<Rightarrow> bool" where
  "follows_windows encoded limit c [] = (length encoded \<le> c)"
| "follows_windows encoded limit c (x # xs) =
     (c < length encoded \<and> x = fst (spec_window encoded limit c)
      \<and> follows_windows encoded limit (nat (snd (spec_window encoded limit c))) xs)"

text \<open>A source path \<open>out/doc.json\<close>, a state in which that file holds no bytes, and
  one in which it holds the document \<open>[]\<close>.\<close>

definition doc_json_path :: pypath where
  "doc_json_path = \<lparr>parent = ''out'', stem = ''doc'', suffix = ''.json''\<rparr>"

definition zero_byte_state :: "bytes fs" where
  "zero_byte_state =
     \<lparr>files = [(''out/doc.json'', \<lparr>content = [], mtime = 0\<rparr>)],
      dirs = {''out''}, clock = 1, out = []\<rparr>"

definition empty_array_state :: "bytes fs" where
  "empty_array_state =
     \<lparr>files = [(''out/doc.json'', \<lparr>content = [0x5B, 0x5D], mtime = 0\<rparr>)],
      dirs = {''out''}, clock = 1, out = []\<rparr>"

text \<open>What \<open>json.loads\<close> returns on the document \<open>[]\<close>; other documents are not used
  with it.\<close>

definition loads_brackets :: "ustr \<Rightarrow> json option" where
  "loads_brackets doc = (if doc = [0x5B, 0x5D] then Some (JArr []) else None)"

section \<open>The artifacts package\<close>

text \<open>
  From here on files hold text: the generators write with \<open>write_text\<close> and read with
  \<open>read_text\<close>, both as UTF-8, so the file system stores the strings themselves.
\<close>

subsection \<open>String helpers\<close>

text \<open>The characters \<open>str.strip\<close> and \<open>str.rstrip\<close> remove when called without an
  argument, among the code points below 256.\<close>

definition is_space :: "char \<Rightarrow> bool" where
  "is_space c = (of_char c \<in> {9, 10, 11, 12, 13, 28, 29, 30, 31, 32, 133, 160 :: nat})"

definition rstrip :: "string \<Rightarrow> string" where
  "rstrip s = rev (dropWhile is_space (rev s))"

definition strip :: "string \<Rightarrow> string" where
  "strip s = rstrip (dropWhile is_space s)"

text \<open>The truth value of an \<open>Optional[str]\<close>: \<open>None\<close> and the empty string are false.\<close>

definition truthy_str :: "string option \<Rightarrow> bool" where
  "truthy_str v = (case v of None \<Rightarrow> False | Some u \<Rightarrow> u \<noteq> [])"

subsection \<open>artifacts/chunking.py and artifacts/cleanup.py\<close>

text \<open>
  \<open>directory.glob(pattern)\<close> yields existing paths; which ones is decided by
  \<open>pathlib\<close>, and is the parameter \<open>G\<close>: \<open>G directory pattern p\<close> says that the path \<open>p\<close>,
  when it exists, is among them. Every path of the model is a regular file, so the test
  \<open>target.is_file()\<close> holds for all of them.
\<close>

definition glob_paths :: "(string \<Rightarrow> string \<Rightarrow> string \<Rightarrow> bool) \<Rightarrow> 'c fs \<Rightarrow> string \<Rightarrow> string \<Rightarrow> string list" where
  "glob_paths G s directory pattern = filter (G directory pattern) (map fst (files s))"

definition clear_existing_files :: "(string \<Rightarrow> string \<Rightarrow> string \<Rightarrow> bool) \<Rightarrow> string \<Rightarrow> string list \<Rightarrow> 'c fs \<Rightarrow> 'c fs" where
  "clear_existing_files G directory patterns s =
     fold (\<lambda>pattern s1. fold unlink (glob_paths G s1 directory pattern) s1) patterns s"

definition prepare_output_dir :: "(string \<Rightarrow> string \<Rightarrow> string \<Rightarrow> bool) \<Rightarrow> string \<Rightarrow> string list \<Rightarrow> 'c fs \<Rightarrow> 'c fs" where
  "prepare_output_dir G path patterns_to_clear s =
     clear_existing_files G path patterns_to_clear (mkdir_parents path s)"

record chunk_manifest =
  total_parts :: nat
  part_paths :: "string list"

record format_artifacts =
  aggregate_path :: string
  manifest :: chunk_manifest

text \<open>The loop of \<open>write_chunks\<close>: each payload is written with \<open>write_text\<close>, without a
  look at what the file holds, and reported through \<open>on_write\<close> when there is one.\<close>

fun write_chunks_loop :: "string \<Rightarrow> string \<Rightarrow> string \<Rightarrow> nat \<Rightarrow> (string \<Rightarrow> message) option
    \<Rightarrow> nat \<Rightarrow> string list \<Rightarrow> string list \<Rightarrow> string fs \<Rightarrow> string list \<times> string fs" where
  "write_chunks_loop dest_dir base_name extension tot on_write index [] written s =
     (written, s)"
| "write_chunks_loop dest_dir base_name extension tot on_write index (payload # rest) written s =
     (let filename = chunk_filename base_name index tot extension;
          chunk_path = joinpath dest_dir filename;
          s1 = write_file chunk_path payload s;
          s2 = (case on_write of None \<Rightarrow> s1 | Some f \<Rightarrow> print (f chunk_path) s1)
      in write_chunks_loop dest_dir base_name extension tot on_write (Suc index) rest
           (written @ [chunk_path]) s2)"

definition write_chunks :: "string \<Rightarrow> string \<Rightarrow> string \<Rightarrow> string list \<Rightarrow> (string \<Rightarrow> message) option
    \<Rightarrow> string fs \<Rightarrow> chunk_manifest \<times> string fs" where
  "write_chunks dest_dir base_name extension payloads on_write s =
     (let tot = length payloads;
          (paths, s') = write_chunks_loop dest_dir base_name extension tot on_write 1 payloads [] s
      in (\<lparr>total_parts = tot, part_paths = paths\<rparr>, s'))"

subsection \<open>artifacts/formats/html.py\<close>

text \<open>The payload of chunk \<open>index\<close> of \<open>tot\<close> (the source's \<open>total\<close>): the optional source line, the banner and
  the chunk with its trailing white space removed, joined by newlines.\<close>

definition html_chunk_payload :: "string option \<Rightarrow> string \<Rightarrow> nat \<Rightarrow> nat \<Rightarrow> string \<Rightarrow> string" where
  "html_chunk_payload source_url label index tot html_part =
     (let lines =
            (if truthy_str source_url then [''<!-- Source URL: '' @ the source_url @ '' -->''] else [])
            @ [''<!-- HTML Chunk '' @ str_nat index @ ''/'' @ str_nat tot
               @ [CHR '' '', CHR 0xB7, CHR '' ''] @ label @ '' -->'']
            @ [rstrip html_part]
      in rstrip (join ''\<newline>'' lines) @ ''\<newline>'')"



text \<open>A matcher to run the generator with: it yields the files right inside the
  directory whose name fits the pattern, where a star stands for any run of characters
  and every other character for itself. On the patterns of \<open>html.generate\<close> for a base
  name without pattern characters this is what \<open>pathlib\<close> does.\<close>

fun star_glob :: "string \<Rightarrow> string \<Rightarrow> bool" where
  "star_glob [] [] = True"
| "star_glob [] (c # cs) = False"
| "star_glob (p # ps) [] = (p = CHR ''*'' \<and> star_glob ps [])"
| "star_glob (p # ps) (c # cs) =
     (if p = CHR ''*'' then star_glob ps (c # cs) \<or> star_glob (p # ps) cs
      else p = c \<and> star_glob ps cs)"

definition name_in_dir :: "string \<Rightarrow> string \<Rightarrow> string option" where
  "name_in_dir directory p =
     (let prefix = directory @ ''/''
      in if take (length prefix) p = prefix \<and> CHR ''/'' \<notin> set (drop (length prefix) p)
            \<and> drop (length prefix) p \<noteq> []
         then Some (drop (length prefix) p) else None)"

definition sample_glob :: "string \<Rightarrow> string \<Rightarrow> string \<Rightarrow> bool" where
  "sample_glob directory pattern p =
     (case name_in_dir directory p of None \<Rightarrow> False | Some name \<Rightarrow> star_glob pattern name)"


section \<open>artifact_fanout.py\<close>

subsection \<open>Collaborators\<close>

text \<open>
  What lies outside the repository is gathered in one record: the matcher of
  \<open>Path.glob\<close>, the table of decimal digits, \<open>BeautifulSoup(\<dots>).get_text("\n")\<close>,
  \<open>json.dumps(\<dots>, ensure_ascii=False, indent=2)\<close> for a chunk and for the aggregate, the
  time stamp \<open>_now_iso()\<close> reads from the system clock, and the browser that prints a
  page to PDF, which gives the PDF for the content of the file it is pointed at, or the
  text of its \<open>PlaywrightError\<close>.
\<close>

record chunk_entry =
  ce_dataset :: string
  ce_part :: nat
  ce_total_parts :: nat
  ce_html :: string
  ce_markdown :: string
  ce_text :: string

record json_aggregate =
  ja_dataset :: string
  ja_generated_at :: string
  ja_html :: string
  ja_markdown :: string
  ja_text :: string
  ja_chunks :: "chunk_entry list"

record env =
  glob :: "string \<Rightarrow> string \<Rightarrow> string \<Rightarrow> bool"
  digits :: "nat \<Rightarrow> nat option"
  get_text :: "string \<Rightarrow> string"
  dumps_chunk :: "chunk_entry \<Rightarrow> string"
  dumps_aggregate :: "json_aggregate \<Rightarrow> string"
  now_iso :: string
  browser_pdf :: "string option \<Rightarrow> string + string"

text \<open>
  A printed line is kept without the symbol it starts with: \<open>Warn\<close> is a line that starts
  with the warning sign, \<open>Info\<close> any other line. The text of an operating system error,
  which the code puts into one of its warnings, is left out of the line.
\<close>

subsection \<open>Reading text files\<close>

text \<open>\<open>path.read_text(encoding="utf-8")\<close> on a file that holds text: the file is opened
  in text mode, so every \<open>CR LF\<close> and every lone \<open>CR\<close> is read as \<open>LF\<close>. \<open>None\<close> is the
  \<open>OSError\<close> for a path without a file.\<close>

fun text_newlines :: "string \<Rightarrow> string" where
  "text_newlines [] = []"
| "text_newlines [c] = [if c = CHR 0x0D then CHR 0x0A else c]"
| "text_newlines (c # d # r) =
     (if c = CHR 0x0D \<and> d = CHR 0x0A then CHR 0x0A # text_newlines r
      else if c = CHR 0x0D then CHR 0x0A # text_newlines (d # r)
      else c # text_newlines (d # r))"

definition read_text_file :: "string fs \<Rightarrow> string \<Rightarrow> string option" where
  "read_text_file s p = map_option text_newlines (read_file s p)"

subsection \<open>Paths of the file system as the parser sees them\<close>

text \<open>\<open>path.name\<close> is the last component; the parser gets its code points. Sorting
  paths compares them component by component.\<close>

definition path_name :: "string \<Rightarrow> string" where
  "path_name p = (if path_parts p = [] then [] else last (path_parts p))"

definition code_points :: "string \<Rightarrow> ustr" where
  "code_points s = map of_char s"

definition path_key :: "string \<Rightarrow> string list" where
  "path_key p = (if path_root p = [] then [] else [path_root p]) @ path_parts p"

definition sorted_glob :: "env \<Rightarrow> 'c fs \<Rightarrow> string \<Rightarrow> string \<Rightarrow> string list" where
  "sorted_glob E s directory pattern = sort_key path_key (glob_paths (glob E) s directory pattern)"

subsection \<open>extract_plain_text and extract_source_url\<close>

definition extract_plain_text :: "env \<Rightarrow> string \<Rightarrow> string" where
  "extract_plain_text E html_payload = get_text E html_payload"

text \<open>The characters at which \<open>str.splitlines\<close> breaks, below 256; the first line is what
  stands before the first of them.\<close>

definition is_line_boundary :: "char \<Rightarrow> bool" where
  "is_line_boundary c = (of_char c \<in> {10, 11, 12, 13, 28, 29, 30, 133 :: nat})"

definition first_line :: "string \<Rightarrow> string" where
  "first_line payload = takeWhile (\<lambda>c. \<not> is_line_boundary c) payload"

text \<open>
  \<open>SOURCE_URL_COMMENT_RE = re.compile(r"^<!--\s*Source URL:\s*(.*?)\s*-->$")\<close>, matched
  against a line without line breaks. The line has to start with \<open><!--\<close>, white space and
  \<open>Source URL:\<close>, and to end with \<open>-->\<close>. The group is what lies between, less white space
  at both ends; as the caller strips the group, the result is the text between with its
  white space stripped.
\<close>

definition source_url_match :: "string \<Rightarrow> string option" where
  "source_url_match line =
     (case strip_prefix ''<!--'' line of
        None \<Rightarrow> None
      | Some r1 \<Rightarrow>
          (case strip_prefix ''Source URL:'' (dropWhile is_space r1) of
             None \<Rightarrow> None
           | Some r2 \<Rightarrow>
               if 3 \<le> length r2 \<and> drop (length r2 - 3) r2 = ''-->''
               then Some (strip (take (length r2 - 3) r2)) else None))"

definition extract_source_url :: "string option \<Rightarrow> string option" where
  "extract_source_url payload =
     (if \<not> truthy_str payload then None
      else source_url_match (strip (first_line (the payload))))"

subsection \<open>generate_text_artifacts\<close>

text \<open>\<open>path.rename(expected)\<close>.\<close>

definition rename_file :: "string \<Rightarrow> string \<Rightarrow> 'c fs \<Rightarrow> 'c fs" where
  "rename_file p q s =
     (case map_of (files s) p of
        None \<Rightarrow> s
      | Some f \<Rightarrow> s\<lparr>files := AList.update q f (AList.delete p (files s))\<rparr>)"

definition rename_parts :: "string \<Rightarrow> string \<Rightarrow> chunk_manifest \<Rightarrow> string fs \<Rightarrow> string fs" where
  "rename_parts text_dir base_name m s =
     fold (\<lambda>(index, path) s1.
             (let expected = joinpath text_dir
                               (chunk_filename base_name index (total_parts m) ''.txt'')
              in if path = expected then s1 else rename_file path expected s1))
       (zip [1..<Suc (length (part_paths m))] (part_paths m)) s"

definition generate_text_artifacts :: "env \<Rightarrow> string \<Rightarrow> string \<Rightarrow> int \<Rightarrow> string \<Rightarrow> string fs
    \<Rightarrow> string fs option" where
  "generate_text_artifacts E aggregate_html text_dir chunk_char_limit base_name s =
     (let s1 = prepare_output_dir (glob E) text_dir
                 [base_name @ ''.text'', base_name @ ''_part_*.txt''] s;
          plain_text = extract_plain_text E aggregate_html;
          aggregate_path = joinpath text_dir (base_name @ ''.text'');
          s2 = write_file aggregate_path plain_text s1;
          s3 = print (Info (''Aggregate text written: '' @ aggregate_path)) s2
      in case split_text_on_newlines plain_text chunk_char_limit of
           None \<Rightarrow> None
         | Some text_chunks \<Rightarrow>
             (let (chunks_written, s4) =
                     write_chunks text_dir base_name ''.txt'' text_chunks
                       (Some (\<lambda>path. Info (''Text chunk written: '' @ path))) s3
              in Some (rename_parts text_dir base_name chunks_written s4)))"

subsection \<open>generate_json_artifacts\<close>

text \<open>The dictionary from part number to chunk path: the sorted paths are taken in
  order, a path whose name gives the number 0 is left out, and a later path replaces an
  earlier one with the same number.\<close>

definition index_paths :: "env \<Rightarrow> string list \<Rightarrow> (nat \<rightharpoonup> string)" where
  "index_paths E paths =
     fold (\<lambda>path m.
             (let index = fst (parse_chunk_indices (digits E) (code_points (path_name path)))
              in if index = 0 then m else m(index \<mapsto> path)))
       paths Map.empty"

text \<open>\<open>fallback_html_chunks\<close>: the part count and the regenerated HTML chunks.\<close>

definition fallback_html_chunks :: "string \<Rightarrow> int \<Rightarrow> string option \<Rightarrow> string
    \<Rightarrow> (nat \<times> (nat \<rightharpoonup> string)) option" where
  "fallback_html_chunks aggregate_html chunk_char_limit source_url dataset_name =
     (case split_text_on_newlines aggregate_html chunk_char_limit of
        None \<Rightarrow> None
      | Some raw_chunks \<Rightarrow>
          (let tot = (if length raw_chunks = 0 then 1 else length raw_chunks)
           in Some (tot,
                    map_of (map (\<lambda>(index, payload).
                                   (index, html_chunk_payload source_url dataset_name index tot payload))
                              (zip [1..<Suc (length raw_chunks)] raw_chunks)))))"

text \<open>\<open>fallback_markdown_chunks\<close>: the regenerated Markdown chunks, with the empty
  string for every part number up to \<open>total_parts\<close> that the Markdown split did not
  reach.\<close>

definition markdown_chunk_payload :: "string option \<Rightarrow> string \<Rightarrow> nat \<Rightarrow> nat \<Rightarrow> string \<Rightarrow> string" where
  "markdown_chunk_payload source_url dataset_name index tot payload =
     (let lines =
            (if truthy_str source_url then [''<!-- Source URL: '' @ the source_url @ '' -->''] else [])
            @ [''# Markdown Chunk '' @ str_nat index @ ''/'' @ str_nat tot
               @ [CHR '' '', CHR 0xB7, CHR '' ''] @ dataset_name]
            @ [strip payload]
      in strip (join ''\<newline>\<newline>'' lines) @ ''\<newline>'')"

definition fallback_markdown_chunks :: "string \<Rightarrow> int \<Rightarrow> string option \<Rightarrow> string \<Rightarrow> nat
    \<Rightarrow> (nat \<rightharpoonup> string) option" where
  "fallback_markdown_chunks aggregate_markdown chunk_char_limit source_url dataset_name total_parts' =
     (case split_text_on_newlines aggregate_markdown chunk_char_limit of
        None \<Rightarrow> None
      | Some raw_chunks \<Rightarrow>
          (let chunks = map_of (map (\<lambda>(index, payload).
                                       (index, markdown_chunk_payload source_url dataset_name index
                                                 (length raw_chunks) payload))
                                  (zip [1..<Suc (length raw_chunks)] raw_chunks))
           in Some (fold (\<lambda>missing_index m.
                            (case m missing_index of None \<Rightarrow> m(missing_index \<mapsto> []) | Some _ \<Rightarrow> m))
                      [1..<Suc total_parts'] chunks)))"

text \<open>The local \<open>read_text\<close>: a path that cannot be read is reported and gives \<open>None\<close>.\<close>

definition read_text_or_warn :: "string \<Rightarrow> string fs \<Rightarrow> string option \<times> string fs" where
  "read_text_or_warn path s =
     (case read_text_file s path of
        Some t \<Rightarrow> (Some t, s)
      | None \<Rightarrow> (None, print (Warn (''Unable to read '' @ path_name path
                                    @ ''; regenerating in-memory content.'')) s))"

text \<open>One pass through the loop over the part numbers: the entry that is appended, and
  the state after the chunk file was written.\<close>

definition json_part :: "env \<Rightarrow> string \<Rightarrow> string \<Rightarrow> string \<Rightarrow> nat \<Rightarrow> (nat \<rightharpoonup> string) \<Rightarrow> (nat \<rightharpoonup> string)
    \<Rightarrow> (nat \<rightharpoonup> string) \<Rightarrow> (nat \<rightharpoonup> string) \<Rightarrow> nat \<Rightarrow> string fs \<Rightarrow> chunk_entry \<times> string fs" where
  "json_part E dataset_name json_dir base_name total_parts' html_chunk_paths markdown_chunk_paths
     regenerated_html regenerated_markdown part_index s =
     (let html_path = html_chunk_paths part_index;
          (html_read, s1) = (case html_path of
                               Some p \<Rightarrow> read_text_or_warn p s
                             | None \<Rightarrow> (None, s));
          s2 = (if html_read = None \<and> html_path = None
                then print (Warn (''HTML chunk missing on disk: ''
                                  @ chunk_filename base_name part_index total_parts' ''.html'')) s1
                else s1);
          html_content = (case html_read of
                            Some t \<Rightarrow> t
                          | None \<Rightarrow> (case regenerated_html part_index of Some t \<Rightarrow> t | None \<Rightarrow> []));
          markdown_path = markdown_chunk_paths part_index;
          (markdown_read, s3) = (case markdown_path of
                                   Some p \<Rightarrow> read_text_or_warn p s2
                                 | None \<Rightarrow> (None, s2));
          fallback_markdown = (case regenerated_markdown part_index of Some t \<Rightarrow> t | None \<Rightarrow> []);
          s4 = (if markdown_read = None \<and> markdown_path = None \<and> strip fallback_markdown \<noteq> []
                then print (Warn (''Markdown chunk missing on disk: ''
                                  @ chunk_filename base_name part_index total_parts' ''.md'')) s3
                else s3);
          markdown_content = (case markdown_read of Some t \<Rightarrow> t | None \<Rightarrow> fallback_markdown);
          text_content = extract_plain_text E html_content;
          chunk_payload = \<lparr>ce_dataset = dataset_name, ce_part = part_index,
                           ce_total_parts = total_parts', ce_html = html_content,
                           ce_markdown = markdown_content, ce_text = text_content\<rparr>;
          chunk_path = joinpath json_dir (chunk_filename base_name part_index total_parts' ''.json'');
          s5 = write_file chunk_path (dumps_chunk E chunk_payload) s4;
          s6 = print (Info (''JSON chunk written: '' @ chunk_path)) s5
      in (chunk_payload, s6))"

fun json_parts :: "(nat \<Rightarrow> string fs \<Rightarrow> chunk_entry \<times> string fs) \<Rightarrow> nat list \<Rightarrow> chunk_entry list
    \<Rightarrow> string fs \<Rightarrow> chunk_entry list \<times> string fs" where
  "json_parts body [] chunk_entries s = (chunk_entries, s)"
| "json_parts body (part_index # rest) chunk_entries s =
     (let (chunk_payload, s1) = body part_index s
      in json_parts body rest (chunk_entries @ [chunk_payload]) s1)"

definition generate_json_artifacts :: "env \<Rightarrow> string \<Rightarrow> string \<Rightarrow> string \<Rightarrow> string \<Rightarrow> string \<Rightarrow> string
    \<Rightarrow> string \<Rightarrow> int \<Rightarrow> string option \<Rightarrow> string \<Rightarrow> string fs
    \<Rightarrow> (json_aggregate \<times> string fs) option" where
  "generate_json_artifacts E dataset_name aggregate_html aggregate_markdown text_dir html_dir
     markdown_dir json_dir chunk_char_limit source_url base_name s =
     (let s1 = prepare_output_dir (glob E) json_dir
                 [base_name @ ''.json'', base_name @ ''_part_*.json''] s;
          aggregate_text_path = joinpath text_dir (base_name @ ''.text'');
          aggregate_text = (case read_text_file s1 aggregate_text_path of
                              Some t \<Rightarrow> t
                            | None \<Rightarrow> extract_plain_text E aggregate_html);
          html_chunk_paths =
            index_paths E (sorted_glob E s1 html_dir (base_name @ ''_part_*_of_*.html''));
          markdown_chunk_paths =
            index_paths E (sorted_glob E s1 markdown_dir (base_name @ ''_part_*_of_*.md''))
      in case fallback_html_chunks aggregate_html chunk_char_limit source_url dataset_name of
           None \<Rightarrow> None
         | Some (total_parts', regenerated_html) \<Rightarrow>
             (case fallback_markdown_chunks aggregate_markdown chunk_char_limit source_url
                     dataset_name total_parts' of
                None \<Rightarrow> None
              | Some regenerated_markdown \<Rightarrow>
                  (let (chunk_entries, s2) =
                         json_parts (json_part E dataset_name json_dir base_name total_parts'
                                       html_chunk_paths markdown_chunk_paths regenerated_html
                                       regenerated_markdown)
                           [1..<Suc total_parts'] [] s1;
                       aggregate_payload =
                         \<lparr>ja_dataset = dataset_name, ja_generated_at = now_iso E,
                          ja_html = aggregate_html, ja_markdown = aggregate_markdown,
                          ja_text = aggregate_text, ja_chunks = chunk_entries\<rparr>;
                       aggregate_path = joinpath json_dir (base_name @ ''.json'');
                       s3 = write_file aggregate_path (dumps_aggregate E aggregate_payload) s2;
                       s4 = print (Info (''Aggregate JSON written: '' @ aggregate_path)) s3
                   in Some (aggregate_payload, s4))))"

subsection \<open>generate_pdf_artifacts\<close>

text \<open>\<open>html_to_pdf.render_pdf_from_html\<close>: the directory of the output is made, and the
  PDF is written when the browser succeeds.\<close>

definition render_pdf_from_html :: "env \<Rightarrow> string \<Rightarrow> string \<Rightarrow> string fs
    \<Rightarrow> (bool \<times> string option) \<times> string fs" where
  "render_pdf_from_html E input_html output_pdf s =
     (let s1 = mkdir_parent_of output_pdf s
      in case browser_pdf E (read_file s1 input_html) of
           Inr pdf \<Rightarrow> ((True, None), write_file output_pdf pdf s1)
         | Inl msg \<Rightarrow> ((False, Some msg), s1))"

definition pdf_chunk :: "env \<Rightarrow> string \<Rightarrow> string \<Rightarrow> string \<Rightarrow> string fs \<Rightarrow> string fs" where
  "pdf_chunk E pdf_dir base_name html_chunk_path s =
     (let (part_index, total_parts') =
             parse_chunk_indices (digits E) (code_points (path_name html_chunk_path));
          target_path = joinpath pdf_dir (chunk_filename base_name part_index total_parts' ''.pdf'');
          ((success, error), s1) = render_pdf_from_html E html_chunk_path target_path s
      in if success then print (Info (''PDF chunk written: '' @ target_path)) s1
         else if truthy_str error
         then print (Warn (''Failed to render PDF chunk '' @ path_name html_chunk_path @ '': ''
                           @ the error)) s1
         else s1)"

definition generate_pdf_artifacts :: "env \<Rightarrow> string \<Rightarrow> string \<Rightarrow> string \<Rightarrow> string \<Rightarrow> string fs \<Rightarrow> string fs" where
  "generate_pdf_artifacts E aggregate_html_path html_dir pdf_dir base_name s =
     (let s1 = prepare_output_dir (glob E) pdf_dir
                 [base_name @ ''.pdf'', base_name @ ''_part_*.pdf''] s;
          aggregate_pdf = joinpath pdf_dir (base_name @ ''.pdf'');
          ((success, error), s2) = render_pdf_from_html E aggregate_html_path aggregate_pdf s1;
          s3 = (if success then print (Info (''Aggregate PDF written: '' @ aggregate_pdf)) s2
                else if truthy_str error
                then print (Warn (''Failed to render aggregate PDF: '' @ the error)) s2
                else s2);
          html_chunks = sorted_glob E s3 html_dir (base_name @ ''_part_*_of_*.html'')
      in fold (pdf_chunk E pdf_dir base_name) html_chunks s3)"

subsection \<open>fan_out_artifacts\<close>

text \<open>The three stages, each with its test: a stage runs when \<open>overwrite\<close> is set or its
  aggregate file is missing, and prints a line otherwise.\<close>

definition text_stage :: "env \<Rightarrow> bool \<Rightarrow> string \<Rightarrow> string \<Rightarrow> int \<Rightarrow> string \<Rightarrow> string fs \<Rightarrow> string fs option" where
  "text_stage E overwrite aggregate_html_payload text_dir chunk_char_limit base_name s =
     (let text_aggregate = joinpath text_dir (base_name @ ''.text'')
      in if overwrite \<or> \<not> exists_file s text_aggregate
         then generate_text_artifacts E aggregate_html_payload text_dir chunk_char_limit base_name s
         else Some (print (Info (''Skipping text conversion; rendered chat text artifacts already''
                                 @ '' present'')) s))"

definition json_stage :: "env \<Rightarrow> bool \<Rightarrow> string \<Rightarrow> string \<Rightarrow> string \<Rightarrow> string \<Rightarrow> string \<Rightarrow> string
    \<Rightarrow> string \<Rightarrow> int \<Rightarrow> string option \<Rightarrow> string \<Rightarrow> string fs \<Rightarrow> string fs option" where
  "json_stage E overwrite dataset_name aggregate_html_payload aggregate_markdown_payload text_dir
     html_dir markdown_dir json_dir chunk_char_limit source_url base_name s =
     (let json_aggregate = joinpath json_dir (base_name @ ''.json'')
      in if overwrite \<or> \<not> exists_file s json_aggregate
         then map_option snd
                (generate_json_artifacts E dataset_name aggregate_html_payload
                   aggregate_markdown_payload text_dir html_dir markdown_dir json_dir
                   chunk_char_limit
                   (if truthy_str source_url then source_url
                    else extract_source_url (Some aggregate_html_payload))
                   base_name s)
         else Some (print (Info (''Skipping JSON conversion; rendered chat JSON artifacts already''
                                 @ '' present'')) s))"

definition pdf_stage :: "env \<Rightarrow> bool \<Rightarrow> string \<Rightarrow> string \<Rightarrow> string \<Rightarrow> string \<Rightarrow> string fs \<Rightarrow> string fs" where
  "pdf_stage E overwrite aggregate_html_path html_dir pdf_dir base_name s =
     (let pdf_aggregate = joinpath pdf_dir (base_name @ ''.pdf'')
      in if overwrite \<or> \<not> exists_file s pdf_aggregate
         then generate_pdf_artifacts E aggregate_html_path html_dir pdf_dir base_name s
         else print (Info (''Skipping PDF conversion; rendered chat PDF artifacts already''
                           @ '' present'')) s)"

text \<open>A payload that was not passed in is read from its aggregate file when that file
  exists.\<close>

definition resolve_payload :: "string option \<Rightarrow> string \<Rightarrow> string fs \<Rightarrow> string option" where
  "resolve_payload payload path s =
     (if payload = None \<and> exists_file s path then read_text_file s path else payload)"

definition fan_out_artifacts :: "env \<Rightarrow> string \<Rightarrow> string option \<Rightarrow> string option \<Rightarrow> string \<Rightarrow> string
    \<Rightarrow> string \<Rightarrow> string \<Rightarrow> string \<Rightarrow> int \<Rightarrow> bool \<Rightarrow> string option \<Rightarrow> string \<Rightarrow> string fs
    \<Rightarrow> string fs option" where
  "fan_out_artifacts E dataset_name aggregate_html_payload aggregate_markdown_payload html_dir
     markdown_dir text_dir json_dir pdf_dir chunk_char_limit overwrite source_url base_name s =
     (let s1 = fold mkdir_parents [html_dir, markdown_dir, text_dir, json_dir, pdf_dir] s;
          aggregate_html_path = joinpath html_dir (base_name @ ''.html'');
          markdown_aggregate_path = joinpath markdown_dir (base_name @ ''.md'');
          html_payload = resolve_payload aggregate_html_payload aggregate_html_path s1;
          markdown_payload = resolve_payload aggregate_markdown_payload markdown_aggregate_path s1
      in if html_payload = None \<or> markdown_payload = None
         then Some (print (Warn (''Unable to locate aggregate HTML/Markdown for '' @ dataset_name
                                 @ ''; skipping artifact fan-out.'')) s1)
         else (case text_stage E overwrite (the html_payload) text_dir chunk_char_limit base_name s1 of
                 None \<Rightarrow> None
               | Some s2 \<Rightarrow>
                   (case json_stage E overwrite dataset_name (the html_payload)
                           (the markdown_payload) text_dir html_dir markdown_dir json_dir
                           chunk_char_limit source_url base_name s2 of
                      None \<Rightarrow> None
                    | Some s3 \<Rightarrow>
                        Some (pdf_stage E overwrite aggregate_html_path html_dir pdf_dir
                                base_name s3))))"

subsection \<open>A setting to run the orchestrator in\<close>

text \<open>Collaborators that do as little as possible: the text of a page is the page,
  a JSON record is written as its HTML field, and the browser prints a page as it is and
  fails on a missing file. \<open>fresh_state\<close> holds no file; in \<open>generated_state\<close> the text,
  JSON and PDF aggregates of the document \<open>doc\<close> exist.\<close>

definition demo_env :: env where
  "demo_env =
     \<lparr>glob = sample_glob, digits = sample_digits, get_text = (\<lambda>h. h),
      dumps_chunk = ce_html, dumps_aggregate = ja_html, now_iso = ''2026-01-01T00:00:00Z'',
      browser_pdf = (\<lambda>page. case page of None \<Rightarrow> Inl ''file not found'' | Some h \<Rightarrow> Inr h)\<rparr>"

definition fresh_state :: "string fs" where
  "fresh_state = \<lparr>files = [], dirs = {}, clock = 0, out = []\<rparr>"

definition generated_state :: "string fs" where
  "generated_state =
     \<lparr>files = [(''out/text/doc.text'', \<lparr>content = ''hi'', mtime = 1\<rparr>),
                (''out/json/doc.json'', \<lparr>content = ''{}'', mtime = 2\<rparr>),
                (''out/pdf/doc.pdf'', \<lparr>content = ''%PDF'', mtime = 3\<rparr>)],
      dirs = {''out'', ''out/html'', ''out/markdown'', ''out/text'', ''out/json'', ''out/pdf''},
      clock = 4, out = []\<rparr>"

section \<open>Properties of split_text_on_newlines\<close>

lemma rfind_below_Max:
  "rfind_below xs ch a b =
     (if {p. a \<le> p \<and> p < b \<and> xs ! p = ch} = {} then - 1
      else int (Max {p. a \<le> p \<and> p < b \<and> xs ! p = ch}))"
proof (induction b)
  case 0
  show ?case by simp
next
  case (Suc k)
  let ?W = "\<lambda>b. {p. a \<le> p \<and> p < b \<and> xs ! p = ch}"
  show ?case
  proof (cases "k < a")
    case True
    then have "?W (Suc k) = {}" by auto
    with True show ?thesis by simp
  next
    case ge: False
    show ?thesis
    proof (cases "xs ! k = ch")
      case True
      have fin: "finite (?W (Suc k))" by simp
      have mem: "k \<in> ?W (Suc k)" using ge True by simp
      have "Max (?W (Suc k)) = k"
        by (rule Max_eqI[OF fin]) (use mem in auto)
      with ge True mem show ?thesis by auto
    next
      case False
      have "?W (Suc k) = ?W k"
        using False by (auto simp: less_Suc_eq)
      with ge False Suc.IH show ?thesis by simp
    qed
  qed
qed

lemma newlines_in_bounds:
  assumes "W = newlines_in T c b" "W \<noteq> {}"
  shows "c \<le> Max W" "Max W < b"
proof -
  have fin: "finite W" using assms(1) by (simp add: newlines_in_def)
  from Max_in[OF fin assms(2)] have "Max W \<in> newlines_in T c b" using assms(1) by simp
  then show "c \<le> Max W" "Max W < b" by (simp_all add: newlines_in_def)
qed

lemma split_step_spec:
  assumes L: "0 < L" and c: "c < length T"
  shows "split_step T L (int c) = (take (spec_break T L c - c) (drop c T), int (spec_break T L c))"
    and "c < spec_break T L c"
    and "spec_break T L c \<le> length T"
    and "int (spec_break T L c) \<le> int c + L"
proof -
  let ?b = "spec_break T L c"
  have bounds: "c < ?b \<and> ?b \<le> length T \<and> int ?b \<le> int c + L"
  proof (cases "int (length T) \<le> int c + L")
    case True
    then show ?thesis using c by (simp add: spec_break_def)
  next
    case False
    define W where "W = newlines_in T c (nat (int c + L))"
    show ?thesis
    proof (cases "W \<noteq> {} \<and> 2 * int c + L < 2 * int (Max W)")
      case True
      then have "c \<le> Max W" "Max W < nat (int c + L)"
        using newlines_in_bounds[OF W_def] by simp_all
      with True False L show ?thesis
        unfolding spec_break_def W_def[symmetric] by (simp add: Let_def) linarith
    next
      case no: False
      with False L show ?thesis
        unfolding spec_break_def W_def[symmetric] by (auto simp add: Let_def)
    qed
  qed
  then show "c < ?b" "?b \<le> length T" "int ?b \<le> int c + L" by simp_all
  have lim: "snd (split_step T L (int c)) = int ?b"
  proof (cases "int (length T) \<le> int c + L")
    case True
    then show ?thesis by (simp add: split_step_def spec_break_def Let_def)
  next
    case False
    define W where "W = newlines_in T c (nat (int c + L))"
    from False have idx: "nat (slice_index (int (length T)) (int c)) = c"
      "nat (slice_index (int (length T)) (min (int (length T)) (int c + L))) = nat (int c + L)"
      using c L by (simp_all add: slice_index_def)
    have "py_rfind T newline (int c) (min (int (length T)) (int c + L))
          = rfind_below T newline c (nat (int c + L))"
      unfolding py_rfind_def Let_def idx ..
    then have rf: "py_rfind T newline (int c) (min (int (length T)) (int c + L))
          = (if W = {} then - 1 else int (Max W))"
      by (simp add: rfind_below_Max W_def newlines_in_def)
    have lim0: "min (int (length T)) (int c + L) = int c + L"
      "int c + L < int (length T)" using False by simp_all
    have nn: "int (nat (int c + L)) = int c + L" using L by simp
    show ?thesis
    proof (cases "W = {}")
      case True
      then show ?thesis using False L rf lim0 nn
        unfolding split_step_def spec_break_def W_def[symmetric] Let_def by simp
    next
      case ne: False
      then show ?thesis using False L rf lim0 nn
        unfolding split_step_def spec_break_def W_def[symmetric] Let_def by simp
    qed
  qed
  have seg0: "py_slice T (int c) (int ?b) = take (?b - c) (drop c T)"
    using bounds c by (simp add: py_slice_def slice_index_def Let_def drop_take)
  have "take (?b - c) (drop c T) \<noteq> []" using bounds c by simp
  with seg0 lim have "fst (split_step T L (int c)) = take (?b - c) (drop c T)"
    by (simp add: split_step_def Let_def)
  with lim show "split_step T L (int c) = (take (?b - c) (drop c T), int ?b)"
    by (simp add: prod_eq_iff)
qed

lemma split_loop_total:
  assumes L: "0 < L"
  shows "c \<le> length T \<Longrightarrow>
     \<exists>rest. split_loop T L (int c) chunks = Some (chunks @ rest)
        \<and> concat rest = drop c T
        \<and> (\<forall>x \<in> set rest. x \<noteq> [] \<and> int (length x) \<le> L)
        \<and> follows_policy T L c rest"
proof (induction "length T - c" arbitrary: c chunks rule: less_induct)
  case less
  show ?case
  proof (cases "c < length T")
    case False
    with less.prems have "c = length T" by simp
    then show ?thesis by (subst split_loop.simps) simp
  next
    case True
    let ?b = "spec_break T L c"
    let ?x = "take (?b - c) (drop c T)"
    note st = split_step_spec[OF L True]
    have "length T - ?b < length T - c" using st(2,3) by linarith
    from less.hyps[OF this st(3), of "chunks @ [?x]"]
    obtain rest where r: 
      "split_loop T L (int ?b) (chunks @ [?x]) = Some ((chunks @ [?x]) @ rest)"
      "concat rest = drop ?b T" "\<forall>x \<in> set rest. x \<noteq> [] \<and> int (length x) \<le> L"
      "follows_policy T L ?b rest"
      by blast
    have run: "split_loop T L (int c) chunks = Some (chunks @ (?x # rest))"
      by (subst split_loop.simps) (use True st(1) r(1) in simp)
    have cat: "concat (?x # rest) = drop c T"
    proof -
      have "drop ?b T = drop (?b - c) (drop c T)" using st(2) by simp
      then have "concat (?x # rest) = take (?b - c) (drop c T) @ drop (?b - c) (drop c T)"
        using r(2) by simp
      then show ?thesis by (simp only: append_take_drop_id)
    qed
    have len: "?x \<noteq> [] \<and> int (length ?x) \<le> L"
      using st(2,3,4) True by simp
    have pol: "follows_policy T L c (?x # rest)"
      using True r(4) by simp
    from run cat len pol r(3) show ?thesis
      by (intro exI[of _ "?x # rest"]) simp
  qed
qed


lemma split_text_returns:
  assumes "0 < L"
  shows "\<exists>chunks. split_text_on_newlines T L = Some chunks \<and> chunks \<noteq> []"
proof (cases "T = []")
  case True
  then show ?thesis by (simp add: split_text_on_newlines_def)
next
  case False
  from split_loop_total[OF assms, of 0 T "[]"]
  obtain rest where "split_loop T L 0 [] = Some rest" "concat rest = T" by auto
  with False show ?thesis by (auto simp: split_text_on_newlines_def)
qed

lemma rfind_below_empty: "rfind_below xs ch a a = - 1"
  by (cases a) simp_all

lemma split_step_zero:
  assumes "c < length T"
  shows "snd (split_step T 0 (int c)) = int c"
  using assms
  by (simp add: split_step_def py_rfind_def slice_index_def Let_def rfind_below_empty)

lemma split_loop_zero_diverges:
  assumes "split_loop T L cur chunks = Some res"
  shows "\<not> (L = 0 \<and> 0 \<le> cur \<and> cur < int (length T))"
proof (rule split_loop.raw_induct
    [where P = "\<lambda>T L cur chunks res. \<not> (L = 0 \<and> 0 \<le> cur \<and> cur < int (length T))",
      OF _ assms])
  fix loop :: "string \<Rightarrow> int \<Rightarrow> int \<Rightarrow> string list \<Rightarrow> string list option"
  fix T L cur chunks res
  assume IH: "\<And>T L cur chunks res. loop T L cur chunks = Some res
                \<Longrightarrow> \<not> (L = 0 \<and> 0 \<le> cur \<and> cur < int (length T))"
    and eq: "(if cur < int (length T)
              then loop T L (snd (split_step T L cur)) (chunks @ [fst (split_step T L cur)])
              else Some chunks) = Some res"
  show "\<not> (L = 0 \<and> 0 \<le> cur \<and> cur < int (length T))"
  proof
    assume a: "L = 0 \<and> 0 \<le> cur \<and> cur < int (length T)"
    then have "nat cur < length T" "cur = int (nat cur)" by linarith+
    then have "snd (split_step T 0 cur) = cur" using split_step_zero[of "nat cur" T] by simp
    with a eq have "loop T L cur (chunks @ [fst (split_step T L cur)]) = Some res"
      by simp
    from IH[OF this] a show False by blast
  qed
qed

text \<open>
  Claim C10. For every text and every \<open>max_chars \<ge> 1\<close> the call returns: each pass
  through the loop emits a non-empty segment and moves the cursor strictly forward. The
  bound on \<open>max_chars\<close> is needed: with \<open>max_chars = 0\<close> the call never returns on a
  non-empty text.
\<close>

theorem split_text_terminates:
  "(1 \<le> L \<longrightarrow>
      (\<exists>chunks. split_text_on_newlines T L = Some chunks)
      \<and> (\<forall>c < length T. int c < snd (split_step T L (int c))
                           \<and> fst (split_step T L (int c)) \<noteq> []))
   \<and> (T \<noteq> [] \<longrightarrow> split_text_on_newlines T 0 = None)"
proof (intro conjI impI allI)
  assume L: "1 \<le> L"
  then have L': "0 < L" by simp
  from split_loop_total[OF L', of 0 T "[]"]
  show "\<exists>chunks. split_text_on_newlines T L = Some chunks"
    by (auto simp: split_text_on_newlines_def)
  fix c assume c: "c < length T"
  from split_step_spec[OF L' c]
  show "int c < snd (split_step T L (int c))" "fst (split_step T L (int c)) \<noteq> []"
    using c by simp_all
next
  assume ne: "T \<noteq> []"
  show "split_text_on_newlines T 0 = None"
  proof (rule ccontr)
    assume "split_text_on_newlines T 0 \<noteq> None"
    then obtain res where "split_loop T 0 0 [] = Some res"
      using ne by (auto simp: split_text_on_newlines_def)
    from split_loop_zero_diverges[OF this] ne show False by simp
  qed
qed

theorem split_text_terminates_witness:
  "(1::int) \<le> 2 \<and> ''abc'' \<noteq> []
   \<and> (\<exists>chunks. split_text_on_newlines ''abc'' 2 = Some chunks)
   \<and> int 1 < snd (split_step ''abc'' 2 (int 1))
   \<and> fst (split_step ''abc'' 2 (int 1)) \<noteq> []
   \<and> split_text_on_newlines ''abc'' 0 = None"
proof -
  have h: "(1::int) \<le> 2" "''abc'' \<noteq> []" by simp_all
  note t = split_text_terminates[of 2 "''abc''"]
  from t h have a: "\<exists>chunks. split_text_on_newlines ''abc'' 2 = Some chunks"
    and b: "\<forall>c < length ''abc''. int c < snd (split_step ''abc'' 2 (int c))
                           \<and> fst (split_step ''abc'' 2 (int c)) \<noteq> []"
    and c: "split_text_on_newlines ''abc'' 0 = None"
    by blast+
  from b have "int 1 < snd (split_step ''abc'' 2 (int 1))
      \<and> fst (split_step ''abc'' 2 (int 1)) \<noteq> []"
    by (rule allE[where x = 1]) simp
  with h a c show ?thesis by blast
qed

text \<open>
  Claim C1. For a non-empty text \<open>T\<close> and a positive limit \<open>L\<close> the call returns at
  least one chunk, no chunk is longer than \<open>L\<close>, the chunks concatenated in order give
  \<open>T\<close> back, and every chunk ends where the break-point policy says: after the last
  newline of the window if that newline is past the midpoint, after \<open>L\<close> characters
  otherwise.
\<close>

theorem split_text_chunks:
  assumes "T \<noteq> []" and "0 < L"
  shows "\<exists>chunks. split_text_on_newlines T L = Some chunks
           \<and> chunks \<noteq> []
           \<and> (\<forall>x \<in> set chunks. int (length x) \<le> L)
           \<and> concat chunks = T
           \<and> follows_policy T L 0 chunks"
proof -
  from split_loop_total[OF assms(2), of 0 T "[]"]
  obtain rest where r: "split_loop T L 0 [] = Some rest" "concat rest = T"
    "\<forall>x \<in> set rest. x \<noteq> [] \<and> int (length x) \<le> L" "follows_policy T L 0 rest"
    by auto
  from r(2) assms(1) have "rest \<noteq> []" by auto
  with r assms(1) show ?thesis by (auto simp: split_text_on_newlines_def)
qed

theorem split_text_chunks_witness:
  "''ab\<newline>cd\<newline>efgh'' \<noteq> [] \<and> (0::int) < 4 \<and>
   (\<exists>chunks. split_text_on_newlines ''ab\<newline>cd\<newline>efgh'' 4 = Some chunks
           \<and> chunks \<noteq> []
           \<and> (\<forall>x \<in> set chunks. int (length x) \<le> 4)
           \<and> concat chunks = ''ab\<newline>cd\<newline>efgh''
           \<and> follows_policy ''ab\<newline>cd\<newline>efgh'' 4 0 chunks)"
  using split_text_chunks[of "''ab\<newline>cd\<newline>efgh''" 4] by simp


section \<open>Properties of the chunk naming scheme\<close>





text \<open>The parser reads the decimal digits of every script, and gives the sentinel for a
  name without the marker.\<close>

lemma parse_arabic_indic:
  "parse_chunk_indices sample_digits
     (ascii ''a_part_'' @ [0x663] @ ascii ''_of_'' @ [0x664] @ ascii ''.x'') = (3, 4)"
  by (simp add: parse_chunk_indices_def match_here_def strip_prefix_def ascii_def is_digit_def
      sample_digits_def int_of_digits_def)

lemma parse_sentinel:
  "re_search dec name = None \<Longrightarrow> parse_chunk_indices dec name = (0, 0)"
  by (simp add: parse_chunk_indices_def)

section \<open>Properties of the idempotent writer\<close>

lemma read_after_write: "read_file (write_file p d s) p = Some d"
  by (simp add: read_file_def write_file_def update_conv')

lemma exists_after_write: "exists_file (write_file p d s) p"
  by (simp add: exists_file_def write_file_def update_conv')

lemma sha256_file_after_write: "sha256_file H (write_file p d s) p = Some (H d)"
  by (simp add: sha256_file_def read_after_write exists_after_write)

lemma write_if_changed_settled:
  "sha256_file H (snd (write_if_changed H p d s)) p = Some (H d)"
  by (simp add: write_if_changed_def Let_def sha256_bytes_def sha256_file_after_write)

text \<open>
  Claim C3. Two calls of \<open>write_if_changed\<close> in a row with the same path and the same
  bytes: the second call returns \<open>False\<close> and leaves the whole state as the first call
  left it, so the file is written at most once and its modification time after the
  second call is the one it had after the first. This holds for every hash function.
\<close>

theorem write_if_changed_idempotent:
  "fst (write_if_changed H p d (snd (write_if_changed H p d s))) = False
   \<and> snd (write_if_changed H p d (snd (write_if_changed H p d s))) = snd (write_if_changed H p d s)
   \<and> map_option mtime (map_of (files (snd (write_if_changed H p d (snd (write_if_changed H p d s))))) p)
       = map_option mtime (map_of (files (snd (write_if_changed H p d s))) p)"
proof -
  let ?s1 = "snd (write_if_changed H p d s)"
  have "write_if_changed H p d ?s1 = (False, ?s1)"
    using write_if_changed_settled[of H p d s]
    by (simp add: write_if_changed_def[of H p d ?s1] Let_def sha256_bytes_def)
  then show ?thesis by simp
qed


section \<open>Properties of byte-window splitting\<close>

lemma scalar_value_cons: "well_formed (x # s) = (scalar_value x \<and> well_formed s)"
  by (simp add: well_formed_def)

lemma low6_bound: "continuation b \<Longrightarrow> low6 b \<le> 63"
proof -
  assume "continuation b"
  then have "unat b \<le> 0xBF" by (simp add: continuation_def word_le_nat_alt)
  then show ?thesis by (simp add: low6_def)
qed

lemma seq2_scalar:
  assumes "b0 \<le> 0xDF" "seq2 b0 b1 = Some cp"
  shows "scalar_value cp"
proof -
  from assms(2) have c: "continuation b1" and cp: "cp = (unat b0 - 0xC0) * 64 + low6 b1"
    by (auto simp: seq2_def split: if_splits)
  from assms(1) have "unat b0 - 0xC0 \<le> 31" by (simp add: word_le_nat_alt)
  then have "(unat b0 - 0xC0) * 64 \<le> 31 * 64" by (rule mult_le_mono1)
  with low6_bound[OF c] cp show ?thesis by (simp add: scalar_value_def)
qed

lemma seq3_scalar:
  assumes "b0 \<le> 0xEF" "seq3 b0 b1 b2 = Some cp"
  shows "scalar_value cp"
proof -
  define v where "v = (unat b0 - 0xE0) * 4096 + low6 b1 * 64 + low6 b2"
  from assms(2) have c: "continuation b1" "continuation b2"
    and ns: "\<not> (0xD800 \<le> v \<and> v \<le> 0xDFFF)" and cp: "cp = v"
    unfolding seq3_def Let_def v_def[symmetric] by (auto split: if_splits)
  from assms(1) have "unat b0 - 0xE0 \<le> 15" by (simp add: word_le_nat_alt)
  then have 1: "(unat b0 - 0xE0) * 4096 \<le> 15 * 4096" by (rule mult_le_mono1)
  from low6_bound[OF c(1)] have 2: "low6 b1 * 64 \<le> 63 * 64" by (rule mult_le_mono1)
  from 1 2 low6_bound[OF c(2)] have "v < 0x110000" by (simp add: v_def)
  with ns cp show ?thesis by (simp add: scalar_value_def)
qed

lemma seq4_scalar:
  assumes "seq4 b0 b1 b2 b3 = Some cp"
  shows "scalar_value cp"
proof -
  define v where "v = (unat b0 - 0xF0) * 262144 + low6 b1 * 4096 + low6 b2 * 64 + low6 b3"
  from assms have "0x10000 \<le> v" "v < 0x110000" "cp = v"
    unfolding seq4_def Let_def v_def[symmetric] by (auto split: if_splits)
  then show ?thesis by (simp add: scalar_value_def)
qed

lemma ascii_scalar: "b0 < 0x80 \<Longrightarrow> scalar_value (unat (b0 :: byte))"
  by (simp add: word_less_nat_alt scalar_value_def)

lemma push_Some: "push a r = Some s \<longleftrightarrow> (\<exists>c t. a = Some c \<and> r = Some t \<and> s = c # t)"
  by (cases a; cases r) (auto simp: push_def)

lemma push_well_formed:
  assumes "push a r = Some s" "\<And>c. a = Some c \<Longrightarrow> scalar_value c"
    "\<And>t. r = Some t \<Longrightarrow> well_formed t"
  shows "well_formed s"
  using assms unfolding push_Some by (auto simp: scalar_value_cons)

lemma well_formed_Nil: "well_formed []"
  by (simp add: well_formed_def)

lemma decode_well_formed: "decode_utf8 bs = Some s \<Longrightarrow> well_formed s"
proof (induction bs arbitrary: s rule: decode_utf8.induct)
  case 1
  then show ?case by (simp add: well_formed_def)
next
  case (2 b0)
  then show ?case by (auto simp: scalar_value_cons ascii_scalar well_formed_def split: if_splits)
next
  case (3 b0 b1)
  consider (a) "b0 < 0x80" "push (Some (unat b0)) (decode_utf8 [b1]) = Some s"
    | (b) "\<not> b0 < 0x80" "b0 \<le> 0xDF" "push (seq2 b0 b1) (Some []) = Some s"
    using 3(2) by (subst (asm) decode_utf8.simps(3)) (simp del: decode_utf8.simps split: if_splits)
  then show ?case
  proof cases
    case a
    from a(2) show ?thesis
      by (rule push_well_formed)
        (use a(1) in \<open>auto simp del: decode_utf8.simps simp: ascii_scalar intro: 3(1)\<close>)
  next
    case b
    from b(3) show ?thesis
      by (rule push_well_formed) (use b(2) in \<open>auto simp: well_formed_Nil intro: seq2_scalar\<close>)
  qed
next
  case (4 b0 b1 b2)
  consider (a) "b0 < 0x80" "push (Some (unat b0)) (decode_utf8 [b1, b2]) = Some s"
    | (b) "\<not> b0 < 0x80" "0xC2 \<le> b0 \<and> b0 \<le> 0xDF" "push (seq2 b0 b1) (decode_utf8 [b2]) = Some s"
    | (c) "\<not> b0 < 0x80" "\<not> (0xC2 \<le> b0 \<and> b0 \<le> 0xDF)" "0xE0 \<le> b0 \<and> b0 \<le> 0xEF"
          "push (seq3 b0 b1 b2) (Some []) = Some s"
    using 4(3) by (subst (asm) decode_utf8.simps(4)) (simp del: decode_utf8.simps split: if_splits)
  then show ?case
  proof cases
    case a
    from a(2) show ?thesis
      by (rule push_well_formed)
        (use a(1) in \<open>auto simp del: decode_utf8.simps simp: ascii_scalar intro: 4(1)\<close>)
  next
    case b
    from b(3) show ?thesis
      by (rule push_well_formed)
        (use b(1,2) in \<open>auto simp del: decode_utf8.simps intro: seq2_scalar 4(2)\<close>)
  next
    case c
    from c(4) show ?thesis
      by (rule push_well_formed) (use c(3) in \<open>auto simp: well_formed_Nil intro: seq3_scalar\<close>)
  qed
next
  case (5 b0 b1 b2 b3 r)
  consider (a) "b0 < 0x80" "push (Some (unat b0)) (decode_utf8 (b1 # b2 # b3 # r)) = Some s"
    | (b) "\<not> b0 < 0x80" "0xC2 \<le> b0 \<and> b0 \<le> 0xDF"
          "push (seq2 b0 b1) (decode_utf8 (b2 # b3 # r)) = Some s"
    | (c) "\<not> b0 < 0x80" "\<not> (0xC2 \<le> b0 \<and> b0 \<le> 0xDF)" "0xE0 \<le> b0 \<and> b0 \<le> 0xEF"
          "push (seq3 b0 b1 b2) (decode_utf8 (b3 # r)) = Some s"
    | (d) "\<not> b0 < 0x80" "\<not> (0xC2 \<le> b0 \<and> b0 \<le> 0xDF)" "\<not> (0xE0 \<le> b0 \<and> b0 \<le> 0xEF)"
          "0xF0 \<le> b0 \<and> b0 \<le> 0xF4" "push (seq4 b0 b1 b2 b3) (decode_utf8 r) = Some s"
    using 5(5) by (subst (asm) decode_utf8.simps(5)) (simp del: decode_utf8.simps split: if_splits)
  then show ?case
  proof cases
    case a
    from a(2) show ?thesis
      by (rule push_well_formed)
        (use a(1) in \<open>auto simp del: decode_utf8.simps simp: ascii_scalar intro: 5(1)\<close>)
  next
    case b
    from b(3) show ?thesis
      by (rule push_well_formed)
        (use b(1,2) in \<open>auto simp del: decode_utf8.simps intro: seq2_scalar 5(2)\<close>)
  next
    case c
    from c(4) show ?thesis
      by (rule push_well_formed)
        (use c(1,2,3) in \<open>auto simp del: decode_utf8.simps intro: seq3_scalar 5(3)\<close>)
  next
    case d
    from d(5) show ?thesis
      by (rule push_well_formed)
        (use d(1,2,3,4) in \<open>auto simp del: decode_utf8.simps intro: seq4_scalar 5(4)\<close>)
  qed
qed

lemma latin1_well_formed: "well_formed (decode_latin1 bs)"
proof -
  have "scalar_value (unat b)" for b :: byte
    using unsigned_less[of b, where ?'a = nat] by (simp add: scalar_value_def)
  then show ?thesis by (simp add: well_formed_def decode_latin1_def list_all_iff)
qed

lemma encode_char_scalar: "scalar_value cp \<Longrightarrow> encode_char cp \<noteq> None"
  by (auto simp: scalar_value_def encode_char_def)

lemma encode_well_formed: "well_formed s \<Longrightarrow> encode_utf8 s \<noteq> None"
  by (induction s) (auto simp: scalar_value_cons dest: encode_char_scalar)


lemma py_slice_nat:
  "c \<le> length xs \<Longrightarrow> py_slice xs (int c) (int c + int k) = take k (drop c xs)"
proof -
  assume c: "c \<le> length xs"
  have "drop c (take (min (c + k) (length xs)) xs) = take k (drop c xs)"
    by (cases "c + k \<le> length xs") (simp_all add: drop_take min_def)
  moreover have "nat (slice_index (int (length xs)) (int c)) = c"
    using c by (simp add: slice_index_def)
  moreover have "nat (slice_index (int (length xs)) (int c + int k)) = min (c + k) (length xs)"
    by (simp add: slice_index_def min_def) linarith
  ultimately show ?thesis by (simp add: py_slice_def Let_def)
qed

lemma shrink_spec:
  assumes c: "c \<le> length encoded"
  shows "shrink encoded (int c) n =
     (if {k. 1 \<le> k \<and> k \<le> n \<and> decodable encoded c k} = {} then None
      else Some (the (decode_utf8 (take (Max {k. 1 \<le> k \<and> k \<le> n \<and> decodable encoded c k})
                                     (drop c encoded))),
                 Max {k. 1 \<le> k \<and> k \<le> n \<and> decodable encoded c k}))"
proof (induction n)
  case 0
  show ?case by simp
next
  case (Suc n)
  let ?K = "\<lambda>n. {k. 1 \<le> k \<and> k \<le> n \<and> decodable encoded c k}"
  have sl: "py_slice encoded (int c) (int c + int (Suc n)) = take (Suc n) (drop c encoded)"
    by (rule py_slice_nat[OF c])
  show ?case
  proof (cases "decode_utf8 (take (Suc n) (drop c encoded))")
    case None
    then have "\<not> decodable encoded c (Suc n)" by (simp add: decodable_def)
    then have "?K (Suc n) = ?K n" by (auto simp: le_Suc_eq)
    with None Suc.IH sl show ?thesis by (simp del: shrink.simps add: shrink.simps(2)[of encoded "int c" n])
  next
    case (Some chunk)
    then have mem: "Suc n \<in> ?K (Suc n)" by (simp add: decodable_def)
    have "Max (?K (Suc n)) = Suc n"
      by (rule Max_eqI) (use mem in auto)
    with Some mem sl show ?thesis by (auto simp del: shrink.simps simp add: shrink.simps(2)[of encoded "int c" n])
  qed
qed

lemma bytes_step_spec:
  assumes L: "0 < limit" and c: "c < length encoded"
  shows "bytes_step encoded limit (int c) = spec_window encoded limit c"
proof -
  define n where "n = nat limit"
  define ks where "ks = {k. 1 \<le> k \<and> k \<le> n \<and> decodable encoded c k}"
  define w where "w = take n (drop c encoded)"
  have lim: "limit = int n" "1 \<le> n" using L by (simp_all add: n_def)
  have win: "py_slice encoded (int c) (int c + limit) = w"
    using py_slice_nat[of c encoded n] c lim(1) by (simp add: w_def)
  have fin: "finite ks" by (simp add: ks_def)
  have spec: "spec_window encoded limit c =
      (if ks \<noteq> {} then (the (decode_utf8 (take (Max ks) (drop c encoded))),
                           int (min (c + Max ks) (length encoded)))
       else (decode_latin1 w, int c + limit))"
    unfolding spec_window_def Let_def ks_def n_def w_def ..
  have shr: "shrink encoded (int c) n =
      (if ks = {} then None
       else Some (the (decode_utf8 (take (Max ks) (drop c encoded))), Max ks))"
    unfolding ks_def using shrink_spec[of c encoded n] c by simp
  have step: "bytes_step encoded limit (int c) =
      (case decode_utf8 w of
         Some chunk \<Rightarrow> (chunk, int c + int (length w))
       | None \<Rightarrow> (case shrink encoded (int c) n of
                    Some (chunk, slice_end) \<Rightarrow> (chunk, int c + int slice_end)
                  | None \<Rightarrow> (decode_latin1 w, int c + limit)))"
    unfolding bytes_step_def Let_def win n_def ..
  show ?thesis
  proof (cases "decode_utf8 w")
    case (Some chunk)
    then have mem: "n \<in> ks" using lim(2) by (simp add: ks_def decodable_def w_def)
    have le: "\<And>k. k \<in> ks \<Longrightarrow> k \<le> n" by (simp add: ks_def)
    have mx: "Max ks = n" by (rule Max_eqI[OF fin le mem])
    have ne: "ks \<noteq> {}" using mem by blast
    have len: "int c + int (length w) = int (min (c + n) (length encoded))"
      using c unfolding w_def by (simp add: min_def) linarith
    have "bytes_step encoded limit (int c) = (chunk, int (min (c + n) (length encoded)))"
      unfolding step using Some len by simp
    moreover have "spec_window encoded limit c = (chunk, int (min (c + n) (length encoded)))"
      unfolding spec using ne mx Some by (simp add: w_def)
    ultimately show ?thesis by simp
  next
    case None
    show ?thesis
    proof (cases "ks = {}")
      case True
      have "bytes_step encoded limit (int c) = (decode_latin1 w, int c + limit)"
        unfolding step shr using None True by simp
      moreover have "spec_window encoded limit c = (decode_latin1 w, int c + limit)"
        unfolding spec using True by simp
      ultimately show ?thesis by simp
    next
      case False
      define K where "K = Max ks"
      from Max_in[OF fin False] have "K \<in> ks" by (simp add: K_def)
      then have K: "1 \<le> K" "K \<le> n" "decodable encoded c K" by (simp_all add: ks_def)
      have "c + K \<le> length encoded"
      proof (rule ccontr)
        assume "\<not> c + K \<le> length encoded"
        then have "take K (drop c encoded) = w" using K(2) by (simp add: w_def)
        with K(3) None show False by (simp add: decodable_def)
      qed
      then have mn: "int (min (c + K) (length encoded)) = int c + int K" by simp
      have "bytes_step encoded limit (int c)
            = (the (decode_utf8 (take K (drop c encoded))), int c + int K)"
        unfolding step shr K_def[symmetric] using None False by simp
      moreover have "spec_window encoded limit c
            = (the (decode_utf8 (take K (drop c encoded))), int c + int K)"
        unfolding spec K_def[symmetric] using False mn by simp
      ultimately show ?thesis by simp
    qed
  qed
qed

lemma spec_window_props:
  assumes L: "0 < limit" and c: "c < length encoded"
  shows "int c < snd (spec_window encoded limit c)
         \<and> well_formed (fst (spec_window encoded limit c))"
proof -
  let ?ks = "{k. 1 \<le> k \<and> k \<le> nat limit \<and> decodable encoded c k}"
  have fin: "finite ?ks" by simp
  show ?thesis
  proof (cases "?ks = {}")
    case True
    then show ?thesis
      using L by (simp add: spec_window_def latin1_well_formed)
  next
    case False
    from Max_in[OF fin False] have K: "1 \<le> Max ?ks" "decodable encoded c (Max ?ks)" by simp_all
    from K(2) obtain t where t: "decode_utf8 (take (Max ?ks) (drop c encoded)) = Some t"
      by (auto simp: decodable_def)
    from False K(1) c have "int c < snd (spec_window encoded limit c)"
      by (simp add: spec_window_def Let_def)
    moreover from False t decode_well_formed[OF t]
    have "well_formed (fst (spec_window encoded limit c))"
      by (simp add: spec_window_def Let_def)
    ultimately show ?thesis ..
  qed
qed

lemma bytes_loop_total:
  assumes L: "0 < limit"
  shows "0 \<le> cur \<Longrightarrow>
     \<exists>rest. bytes_loop encoded limit cur chunks = Some (chunks @ rest)
        \<and> (\<forall>x \<in> set rest. well_formed x)
        \<and> follows_windows encoded limit (nat cur) rest"
proof (induction "nat (int (length encoded) - cur)" arbitrary: cur chunks rule: less_induct)
  case less
  show ?case
  proof (cases "cur < int (length encoded)")
    case False
    then have "length encoded \<le> nat cur" by linarith
    with False show ?thesis by (subst bytes_loop.simps) simp
  next
    case True
    define c where "c = nat cur"
    with less.prems True have c: "cur = int c" "c < length encoded" by simp_all
    let ?st = "bytes_step encoded limit cur"
    have st: "?st = spec_window encoded limit c" using bytes_step_spec[OF L c(2)] c(1) by simp
    from spec_window_props[OF L c(2)]
    have pr: "int c < snd (spec_window encoded limit c)"
      "well_formed (fst (spec_window encoded limit c))" by simp_all
    have adv: "cur < snd ?st" using pr(1) st c(1) by simp
    then have "nat (int (length encoded) - snd ?st) < nat (int (length encoded) - cur)"
      using True by linarith
    moreover have "0 \<le> snd ?st" using adv less.prems by simp
    ultimately obtain rest where r:
      "bytes_loop encoded limit (snd ?st) (chunks @ [fst ?st]) = Some ((chunks @ [fst ?st]) @ rest)"
      "\<forall>x \<in> set rest. well_formed x"
      "follows_windows encoded limit (nat (snd ?st)) rest"
      using less.hyps[of "snd ?st" "chunks @ [fst ?st]"] by blast
    have "bytes_loop encoded limit cur chunks = Some (chunks @ (fst ?st # rest))"
      by (subst bytes_loop.simps) (use True r(1) in simp)
    moreover have "well_formed (fst ?st)" using pr(2) st by simp
    moreover have "follows_windows encoded limit (nat cur) (fst ?st # rest)"
      using r(3) st c by simp
    ultimately show ?thesis using r(2) by (intro exI[of _ "fst ?st # rest"]) simp
  qed
qed

text \<open>A run of the loop on the bytes of \<open>A\<close>, \<open>U+00E9\<close> and \<open>U+20AC\<close> with windows of
  two bytes: the first window is cut back to one byte, the second decodes as it is, the
  last two fall back to Latin-1.\<close>

lemma demo_encoded: "encode_utf8 [0x41, 0xE9, 0x20AC] = Some [0x41, 0xC3, 0xA9, 0xE2, 0x82, 0xAC]"
  by (simp add: encode_char_def)

lemma shrink_two: "shrink e c 2 = shrink e c (Suc (Suc 0))"
  by (simp add: numeral_2_eq_2)

lemmas bytes_step_eval = bytes_step_def py_slice_def slice_index_def Let_def push_def seq2_def seq3_def
      continuation_def low6_def decode_latin1_def shrink_two

lemma demo_st0: "bytes_step [0x41, 0xC3, 0xA9, 0xE2, 0x82, 0xAC] 2 0 = ([0x41], 1)"
  by (simp add: bytes_step_eval)

lemma demo_st1: "bytes_step [0x41, 0xC3, 0xA9, 0xE2, 0x82, 0xAC] 2 1 = ([0xE9], 3)"
  by (simp add: bytes_step_eval)

lemma demo_st3: "bytes_step [0x41, 0xC3, 0xA9, 0xE2, 0x82, 0xAC] 2 3 = ([0xE2, 0x82], 5)"
  by (simp add: bytes_step_eval)

lemma demo_st5: "bytes_step [0x41, 0xC3, 0xA9, 0xE2, 0x82, 0xAC] 2 5 = ([0xAC], 7)"
  by (simp add: bytes_step_eval)

lemma demo_chunks: "split_by_bytes [0x41, 0xE9, 0x20AC] 2 = Some (Inr [[0x41], [0xE9], [0xE2, 0x82], [0xAC]])"
  unfolding split_by_bytes_def demo_encoded
  by (simp add: bytes_loop.simps[of _ _ 0] bytes_loop.simps[of _ _ 1] bytes_loop.simps[of _ _ 3]
      bytes_loop.simps[of _ _ 5] bytes_loop.simps[of _ _ 7] demo_st0 demo_st1 demo_st3 demo_st5)


text \<open>
  Claim C9, as amended. For a payload that holds no lone surrogate (so that it encodes as
  UTF-8) and a positive byte limit, \<open>_split_by_bytes\<close> returns and raises nothing. A
  payload whose encoding fits the limit comes back as the single chunk. Otherwise the
  chunks returned are exactly those of the window policy from position 0: each window is
  cut back to the greatest length that decodes, and the Latin-1 decoding of the whole
  window is taken when no length down to 1 decodes. Every chunk is a string that encodes
  as UTF-8 again.
\<close>

theorem split_by_bytes_safe:
  assumes "well_formed payload" and "0 < limit"
  shows "\<exists>encoded chunks.
           encode_utf8 payload = Some encoded
           \<and> split_by_bytes payload limit = Some (Inr chunks)
           \<and> (if int (length encoded) \<le> limit then chunks = [payload]
               else follows_windows encoded limit 0 chunks)
           \<and> chunks \<noteq> []
           \<and> (\<forall>x \<in> set chunks. well_formed x \<and> encode_utf8 x \<noteq> None)"
proof -
  from encode_well_formed[OF assms(1)] obtain encoded where e: "encode_utf8 payload = Some encoded"
    by auto
  show ?thesis
  proof (cases "int (length encoded) \<le> limit")
    case True
    with e assms show ?thesis by (simp add: split_by_bytes_def encode_well_formed)
  next
    case False
    from bytes_loop_total[OF assms(2), of 0 encoded "[]"] obtain rest where
      r: "bytes_loop encoded limit 0 [] = Some rest" "\<forall>x \<in> set rest. well_formed x"
        "follows_windows encoded limit 0 rest"
      by auto
    from False assms(2) have "0 < length encoded" by (cases encoded) simp_all
    with r(3) have ne: "rest \<noteq> []" by (cases rest) simp_all
    have sp: "split_by_bytes payload limit = Some (Inr rest)"
      using r(1) e False assms(2) by (simp add: split_by_bytes_def)
    from r(2) have "\<forall>x \<in> set rest. well_formed x \<and> encode_utf8 x \<noteq> None"
      by (blast dest: encode_well_formed)
    with e sp False r(3) ne show ?thesis by auto
  qed
qed

theorem split_by_bytes_safe_witness:
  "well_formed [0x41, 0xE9, 0x20AC] \<and> (0::int) < 2
   \<and> (\<exists>encoded chunks.
           encode_utf8 [0x41, 0xE9, 0x20AC] = Some encoded
           \<and> split_by_bytes [0x41, 0xE9, 0x20AC] 2 = Some (Inr chunks)
           \<and> (if int (length encoded) \<le> 2 then chunks = [[0x41, 0xE9, 0x20AC]]
               else follows_windows encoded 2 0 chunks)
           \<and> chunks \<noteq> []
           \<and> (\<forall>x \<in> set chunks. well_formed x \<and> encode_utf8 x \<noteq> None))
   \<and> split_by_bytes [0x41, 0xE9, 0x20AC] 2 = Some (Inr [[0x41], [0xE9], [0xE2, 0x82], [0xAC]])"
proof -
  have h: "well_formed [0x41, 0xE9, 0x20AC]" "(0::int) < 2"
    by (simp_all add: well_formed_def scalar_value_def)
  note v = demo_chunks
  from split_by_bytes_safe[OF h] h v show ?thesis by blast
qed

text \<open>
  The claim as stated, for every string, fails: a string may hold a lone surrogate, and
  then \<open>payload.encode("utf-8")\<close>, which stands outside the \<open>try\<close>, raises.
\<close>

theorem split_by_bytes_safe_counterexample:
  "split_by_bytes [0xD800] 5 = Some (Inl UnicodeEncodeError)"
  by (simp add: split_by_bytes_def encode_char_def)


section \<open>Empty inputs\<close>

lemma read_file_print: "read_file (print m s) p = read_file s p"
  by (simp add: read_file_def print_def)

lemma write_each_names:
  "fst (write_each H d b t e i payloads written s)
   = written @ map (\<lambda>k. joinpath d (chunk_filename b k t e)) [i..<i + length payloads]"
proof (induction payloads arbitrary: i written s)
  case Nil
  show ?case by simp
next
  case (Cons p ps)
  show ?case
    by (simp add: Let_def split_beta Cons.IH upt_conv_Cons del: upt_Suc)
qed

lemma write_chunks_names:
  "fst (splitters_write_chunks H path ext payloads s)
   = map (\<lambda>k. joinpath (parent path)
                  (chunk_filename (stem path) k (max 1 (length payloads)) ext))
       [1..<Suc (max 1 (length payloads))]"
proof (cases payloads)
  case Nil
  then show ?thesis
    by (simp only: splitters_write_chunks_def Let_def write_each_names) simp
next
  case (Cons p ps)
  then have "max 1 (length payloads) = length payloads" by simp
  with Cons show ?thesis
    by (simp only: splitters_write_chunks_def Let_def write_each_names) simp
qed

lemma settled_content:
  assumes "\<forall>x. H x = H [] \<longrightarrow> x = []"
  shows "read_file (snd (write_if_changed H p [] s)) p = Some []"
proof -
  from write_if_changed_settled[of H p "[]" s]
  obtain x where "read_file (snd (write_if_changed H p [] s)) p = Some x" "H x = H []"
    by (auto simp: sha256_file_def split: if_splits)
  with assms show ?thesis by simp
qed

lemma write_chunks_single_empty:
  assumes "payloads = [] \<or> payloads = [[]]" and "\<forall>x. H x = H [] \<longrightarrow> x = []"
  shows "\<exists>s'. splitters_write_chunks H path ext payloads s
            = ([joinpath (parent path) (chunk_filename (stem path) 1 1 ext)], s')
          \<and> read_file s' (joinpath (parent path) (chunk_filename (stem path) 1 1 ext)) = Some []"
proof -
  let ?p = "joinpath (parent path) (chunk_filename (stem path) 1 1 ext)"
  have run: "splitters_write_chunks H path ext payloads s
        = write_each H (parent path) (stem path) 1 ext 1 [[]] [] s"
    using assms(1) by (auto simp: splitters_write_chunks_def Let_def)
  have names: "fst (write_each H (parent path) (stem path) 1 ext 1 [[]] [] s) = [?p]"
    by (simp only: write_each_names) simp
  have "read_file (snd (write_each H (parent path) (stem path) 1 ext 1 [[]] [] s)) ?p = Some []"
    using settled_content[OF assms(2), of ?p s]
    by (simp add: Let_def split_beta read_file_print)
  with run names show ?thesis by (metis prod.collapse)
qed

lemma json_loop_empty: "json_loop dumps [] mi max_bytes 0 [] = Some []"
  by (subst json_loop.simps) simp

text \<open>
  Claim C8, as amended. On the empty string the newline splitter, the character splitter
  and the byte splitter return exactly one chunk, the empty one, whatever the limit; the
  node splitter does the same when the parser finds no node in the empty document. The
  chunk writer numbers its parts from 1 to the larger of 1 and the number of payloads, so
  a part count of zero does not occur. For the item and the page splitter emptiness is a
  matter of items and pages: a JSON document that holds the empty array (bare or under
  \<open>chunks\<close>) and a PDF without pages are written as part 1 of 1, and that file is empty
  provided nothing else hashes like the empty payload. A JSON or PDF file of zero bytes
  is not split: the parser raises and nothing is written.
\<close>

theorem empty_input_one_chunk:
  "split_text_on_newlines [] L = Some [[]]
   \<and> split_text ([] :: ustr) L = Some [[]]
   \<and> split_by_bytes [] L = Some (Inr [[]])
   \<and> (body_children [] = [] \<longrightarrow> split_html_by_nodes body_children render [] n = Some [[]])
   \<and> fst (splitters_write_chunks H path ext payloads s)
       = map (\<lambda>k. joinpath (parent path)
                      (chunk_filename (stem path) k (max 1 (length payloads)) ext))
           [1..<Suc (max 1 (length payloads))]
   \<and> (read_text s (full_path path) = Inr doc \<and> doc \<noteq> []
        \<and> (P doc = Some (JArr []) \<or> P doc = Some (JObj [(''chunks'', JArr [])]))
        \<and> (\<forall>x. H x = H [] \<longrightarrow> x = [])
      \<longrightarrow> (\<exists>s'. split_json H P dumps dumps_indent path max_items max_bytes s
                   = Some (Inr ([joinpath (parent path) (chunk_filename (stem path) 1 1 ''.json'')], s'))
                 \<and> read_file s' (joinpath (parent path) (chunk_filename (stem path) 1 1 ''.json''))
                     = Some []))
   \<and> (read_file s (full_path path) = Some bs \<and> bs \<noteq> [] \<and> R bs = Some []
        \<and> (\<forall>x. H x = H [] \<longrightarrow> x = [])
      \<longrightarrow> (\<exists>s'. split_pdf H R write_pdf path max_pages s
                   = Inr ([joinpath (parent path) (chunk_filename (stem path) 1 1 ''.pdf'')], s')
                 \<and> read_file s' (joinpath (parent path) (chunk_filename (stem path) 1 1 ''.pdf''))
                     = Some []))
   \<and> (read_text s (full_path path) = Inr []
      \<longrightarrow> split_json H P dumps dumps_indent path max_items max_bytes s = Some (Inl JSONDecodeError))
   \<and> (read_file s (full_path path) = Some []
      \<longrightarrow> split_pdf H R write_pdf path max_pages s = Inl PdfReadError)"
proof -
  have 1: "split_text_on_newlines [] L = Some [[]]" by (simp add: split_text_on_newlines_def)
  have 2: "split_text ([] :: ustr) L = Some [[]]"
    by (cases "L \<le> 0") (simp_all add: split_text_def)
  have 3: "split_by_bytes [] L = Some (Inr [[]])"
    by (cases "L \<le> 0") (simp_all add: split_by_bytes_def)
  have 4: "body_children [] = [] \<longrightarrow> split_html_by_nodes body_children render [] n = Some [[]]"
    by (simp add: split_html_by_nodes_def)
  note 5 = write_chunks_names[of H path ext payloads s]
  have 6: "read_text s (full_path path) = Inr doc \<and> doc \<noteq> []
        \<and> (P doc = Some (JArr []) \<or> P doc = Some (JObj [(''chunks'', JArr [])]))
        \<and> (\<forall>x. H x = H [] \<longrightarrow> x = [])
      \<longrightarrow> (\<exists>s'. split_json H P dumps dumps_indent path max_items max_bytes s
                   = Some (Inr ([joinpath (parent path) (chunk_filename (stem path) 1 1 ''.json'')], s'))
                 \<and> read_file s' (joinpath (parent path) (chunk_filename (stem path) 1 1 ''.json''))
                     = Some [])"
  proof (intro impI, elim conjE)
    assume a: "read_text s (full_path path) = Inr doc" "doc \<noteq> []"
      "P doc = Some (JArr []) \<or> P doc = Some (JObj [(''chunks'', JArr [])])"
      "\<forall>x. H x = H [] \<longrightarrow> x = []"
    from a(3) have items: "\<exists>data. json_loads P doc = Inr data \<and> items_of data = Inr []"
      using a(2) by (auto simp: json_loads_def items_of_def)
    then obtain data where d: "json_loads P doc = Inr data" "items_of data = Inr []" by blast
    have "split_json H P dumps dumps_indent path max_items max_bytes s
          = Some (Inr (splitters_write_chunks H path ''.json'' [] s))"
      by (simp add: split_json_def a(1) d json_loop_empty)
    with write_chunks_single_empty[of "[]" H path "''.json''" s] a(4)
    show "\<exists>s'. split_json H P dumps dumps_indent path max_items max_bytes s
                   = Some (Inr ([joinpath (parent path) (chunk_filename (stem path) 1 1 ''.json'')], s'))
                 \<and> read_file s' (joinpath (parent path) (chunk_filename (stem path) 1 1 ''.json''))
                     = Some []"
      by auto
  qed
  have 7: "read_file s (full_path path) = Some bs \<and> bs \<noteq> [] \<and> R bs = Some []
        \<and> (\<forall>x. H x = H [] \<longrightarrow> x = [])
      \<longrightarrow> (\<exists>s'. split_pdf H R write_pdf path max_pages s
                   = Inr ([joinpath (parent path) (chunk_filename (stem path) 1 1 ''.pdf'')], s')
                 \<and> read_file s' (joinpath (parent path) (chunk_filename (stem path) 1 1 ''.pdf''))
                     = Some [])"
  proof (intro impI, elim conjE)
    assume a: "read_file s (full_path path) = Some bs" "bs \<noteq> []" "R bs = Some []"
      "\<forall>x. H x = H [] \<longrightarrow> x = []"
    have "split_pdf H R write_pdf path max_pages s
          = Inr (splitters_write_chunks H path ''.pdf'' [[]] s)"
      by (simp add: split_pdf_def pdf_reader_def a(1,2,3))
    with write_chunks_single_empty[of "[[]]" H path "''.pdf''" s] a(4)
    show "\<exists>s'. split_pdf H R write_pdf path max_pages s
                   = Inr ([joinpath (parent path) (chunk_filename (stem path) 1 1 ''.pdf'')], s')
                 \<and> read_file s' (joinpath (parent path) (chunk_filename (stem path) 1 1 ''.pdf''))
                     = Some []"
      by auto
  qed
  have 8: "read_text s (full_path path) = Inr []
      \<longrightarrow> split_json H P dumps dumps_indent path max_items max_bytes s = Some (Inl JSONDecodeError)"
    by (simp add: split_json_def json_loads_def)
  have 9: "read_file s (full_path path) = Some []
      \<longrightarrow> split_pdf H R write_pdf path max_pages s = Inl PdfReadError"
    by (simp add: split_pdf_def pdf_reader_def)
  from 1 2 3 4 5 6 7 8 9 show ?thesis by (intro conjI)
qed

lemmas path_eval = joinpath_def path_root_def path_parts_def render_path_def full_path_def
  chunk_filename_def str_nat.simps

lemma doc_json_full_path: "full_path doc_json_path = ''out/doc.json''"
  by (simp add: path_eval doc_json_path_def)

lemma doc_json_part_path:
  "joinpath (parent doc_json_path) (chunk_filename (stem doc_json_path) 1 1 ''.json'')
   = ''out/doc_part_1_of_1.json''"
  by code_simp

lemma read_empty_array:
  "read_text empty_array_state (full_path doc_json_path) = Inr [0x5B, 0x5D]"
  by (simp add: doc_json_full_path read_text_def read_file_def empty_array_state_def push_def)

theorem empty_input_one_chunk_witness:
  "(\<lambda>p :: ustr. p) [] = []
   \<and> split_html_by_nodes (\<lambda>p :: ustr. p) (\<lambda>ns :: nat list. ns) [] 3 = Some [[]]
   \<and> read_text empty_array_state (full_path doc_json_path) = Inr [0x5B, 0x5D]
   \<and> loads_brackets [0x5B, 0x5D] = Some (JArr [])
   \<and> (\<exists>s'. split_json (\<lambda>b :: bytes. b) loads_brackets (\<lambda>js. []) (\<lambda>js. []) doc_json_path
              None None empty_array_state
            = Some (Inr ([''out/doc_part_1_of_1.json''], s'))
          \<and> read_file s' ''out/doc_part_1_of_1.json'' = Some [])
   \<and> read_text zero_byte_state (full_path doc_json_path) = Inr []
   \<and> split_json (\<lambda>b :: bytes. b) loads_brackets (\<lambda>js. []) (\<lambda>js. []) doc_json_path
        None None zero_byte_state = Some (Inl JSONDecodeError)"
proof -
  have h1: "(\<lambda>p :: ustr. p) [] = []" by simp
  have h2: "read_text empty_array_state (full_path doc_json_path) = Inr [0x5B, 0x5D]"
    by (rule read_empty_array)
  have h3: "loads_brackets [0x5B, 0x5D] = Some (JArr [])" by (simp add: loads_brackets_def)
  have h4: "\<forall>x :: bytes. (\<lambda>b. b) x = (\<lambda>b. b) [] \<longrightarrow> x = []" by simp
  have h5: "read_text zero_byte_state (full_path doc_json_path) = Inr []"
    by (simp add: doc_json_full_path read_text_def read_file_def zero_byte_state_def)
  note t = empty_input_one_chunk[where body_children = "\<lambda>p :: ustr. p"
      and render = "\<lambda>ns :: nat list. ns" and L = 5 and n = 3
      and H = "\<lambda>b :: bytes. b" and P = loads_brackets and dumps = "\<lambda>js. []"
      and dumps_indent = "\<lambda>js. []" and path = doc_json_path
      and max_items = None and max_bytes = None and s = empty_array_state
      and doc = "[0x5B, 0x5D]" and bs = "[]" and R = "\<lambda>b. None :: nat list option"
      and write_pdf = "\<lambda>ps :: nat list. []" and max_pages = 1
      and ext = "''.txt''" and payloads = "[]"]
  note u = empty_input_one_chunk[where body_children = "\<lambda>p :: ustr. p"
      and render = "\<lambda>ns :: nat list. ns" and L = 5 and n = 3
      and H = "\<lambda>b :: bytes. b" and P = loads_brackets and dumps = "\<lambda>js. []"
      and dumps_indent = "\<lambda>js. []" and path = doc_json_path
      and max_items = None and max_bytes = None and s = zero_byte_state
      and doc = "[]" and bs = "[]" and R = "\<lambda>b. None :: nat list option"
      and write_pdf = "\<lambda>ps :: nat list. []" and max_pages = 1
      and ext = "''.txt''" and payloads = "[]"]
  from t h1 have a: "split_html_by_nodes (\<lambda>p :: ustr. p) (\<lambda>ns :: nat list. ns) [] 3 = Some [[]]"
    by blast
  from t h2 h3 h4
  have "\<exists>s'. split_json (\<lambda>b :: bytes. b) loads_brackets (\<lambda>js. []) (\<lambda>js. []) doc_json_path
              None None empty_array_state
            = Some (Inr ([joinpath (parent doc_json_path)
                            (chunk_filename (stem doc_json_path) 1 1 ''.json'')], s'))
          \<and> read_file s' (joinpath (parent doc_json_path)
                            (chunk_filename (stem doc_json_path) 1 1 ''.json'')) = Some []"
    by blast
  then have b: "\<exists>s'. split_json (\<lambda>b :: bytes. b) loads_brackets (\<lambda>js. []) (\<lambda>js. []) doc_json_path
              None None empty_array_state
            = Some (Inr ([''out/doc_part_1_of_1.json''], s'))
          \<and> read_file s' ''out/doc_part_1_of_1.json'' = Some []"
    unfolding doc_json_part_path .
  from u h5 have c: "split_json (\<lambda>b :: bytes. b) loads_brackets (\<lambda>js. []) (\<lambda>js. []) doc_json_path
        None None zero_byte_state = Some (Inl JSONDecodeError)"
    by blast
  from h1 a h2 h3 b h5 c show ?thesis by (intro conjI)
qed

text \<open>
  The claim as stated, for every splitter, fails on the item splitter: a JSON file of
  zero bytes is an empty input payload, and \<open>split_json\<close> raises on it instead of writing
  one empty chunk.
\<close>

theorem empty_input_one_chunk_counterexample:
  "read_file zero_byte_state ''out/doc.json'' = Some []
   \<and> full_path doc_json_path = ''out/doc.json''
   \<and> split_json (\<lambda>b :: bytes. b) loads_brackets (\<lambda>js. []) (\<lambda>js. []) doc_json_path
        None None zero_byte_state = Some (Inl JSONDecodeError)
   \<and> files zero_byte_state = [(''out/doc.json'', \<lparr>content = [], mtime = 0\<rparr>)]"
  by (simp add: doc_json_full_path split_json_def read_text_def read_file_def zero_byte_state_def
      json_loads_def)


section \<open>Properties of the HTML generator\<close>













section \<open>Properties of the orchestrator\<close>

lemma mkdir_frame:
  "files (mkdir_parents p s) = files s" "clock (mkdir_parents p s) = clock s"
  "out (mkdir_parents p s) = out s"
  by (simp_all add: mkdir_parents_def)

lemma mkdirs_frame:
  "files (fold mkdir_parents ps s) = files s \<and> clock (fold mkdir_parents ps s) = clock s
   \<and> out (fold mkdir_parents ps s) = out s"
  by (induction ps arbitrary: s) (simp_all add: mkdir_frame)

lemma exists_file_cong: "files s = files t \<Longrightarrow> exists_file s p = exists_file t p"
  by (simp add: exists_file_def)

lemma read_text_file_cong: "files s = files t \<Longrightarrow> read_text_file s p = read_text_file t p"
  by (simp add: read_text_file_def read_file_def)

lemma print_out: "out (print m s) = out s @ [m]"
  by (simp add: print_def)



lemma demo_paths:
  "joinpath ''out/html'' ''doc.html'' = ''out/html/doc.html''"
  "joinpath ''out/markdown'' ''doc.md'' = ''out/markdown/doc.md''"
  "joinpath ''out/text'' ''doc.text'' = ''out/text/doc.text''"
  "joinpath ''out/json'' ''doc.json'' = ''out/json/doc.json''"
  "joinpath ''out/pdf'' ''doc.pdf'' = ''out/pdf/doc.pdf''"
  by (simp_all add: joinpath_def path_root_def path_parts_def render_path_def)


lemma print_frame2: "files (print m s) = files s" "clock (print m s) = clock s"
  by (simp_all add: print_def)

text \<open>
  Claim C6. With \<open>overwrite\<close> off, a stage whose aggregate file exists does nothing but
  print its line. Hence a call with \<open>overwrite\<close> off on a document whose text, JSON and PDF
  aggregates all exist writes and removes no file and leaves every modification time as
  it was; when both payloads were passed in, it prints exactly the three lines of the
  skipped stages.
\<close>

theorem fan_out_skips:
  "(\<not> overwrite \<and> exists_file s (joinpath text_dir (base_name @ ''.text''))
      \<longrightarrow> text_stage E overwrite html text_dir chunk_char_limit base_name s
          = Some (print (Info ''Skipping text conversion; rendered chat text artifacts already present'') s))
   \<and> (\<not> overwrite \<and> exists_file s (joinpath json_dir (base_name @ ''.json''))
      \<longrightarrow> json_stage E overwrite dataset_name html markdown text_dir html_dir markdown_dir json_dir
            chunk_char_limit source_url base_name s
          = Some (print (Info ''Skipping JSON conversion; rendered chat JSON artifacts already present'') s))
   \<and> (\<not> overwrite \<and> exists_file s (joinpath pdf_dir (base_name @ ''.pdf''))
      \<longrightarrow> pdf_stage E overwrite aggregate_html_path html_dir pdf_dir base_name s
          = print (Info ''Skipping PDF conversion; rendered chat PDF artifacts already present'') s)
   \<and> (\<not> overwrite
       \<and> exists_file s (joinpath text_dir (base_name @ ''.text''))
       \<and> exists_file s (joinpath json_dir (base_name @ ''.json''))
       \<and> exists_file s (joinpath pdf_dir (base_name @ ''.pdf''))
      \<longrightarrow> (\<exists>s'. fan_out_artifacts E dataset_name aggregate_html_payload aggregate_markdown_payload
                   html_dir markdown_dir text_dir json_dir pdf_dir chunk_char_limit overwrite
                   source_url base_name s = Some s'
                \<and> files s' = files s \<and> clock s' = clock s
                \<and> (aggregate_html_payload \<noteq> None \<and> aggregate_markdown_payload \<noteq> None
                    \<longrightarrow> out s' = out s @
                          [Info ''Skipping text conversion; rendered chat text artifacts already present'',
                           Info ''Skipping JSON conversion; rendered chat JSON artifacts already present'',
                           Info ''Skipping PDF conversion; rendered chat PDF artifacts already present''])))"
proof (intro conjI impI)
  assume "\<not> overwrite \<and> exists_file s (joinpath text_dir (base_name @ ''.text''))"
  then show "text_stage E overwrite html text_dir chunk_char_limit base_name s
          = Some (print (Info ''Skipping text conversion; rendered chat text artifacts already present'') s)"
    by (simp add: text_stage_def)
next
  assume "\<not> overwrite \<and> exists_file s (joinpath json_dir (base_name @ ''.json''))"
  then show "json_stage E overwrite dataset_name html markdown text_dir html_dir markdown_dir json_dir
            chunk_char_limit source_url base_name s
          = Some (print (Info ''Skipping JSON conversion; rendered chat JSON artifacts already present'') s)"
    by (simp add: json_stage_def)
next
  assume "\<not> overwrite \<and> exists_file s (joinpath pdf_dir (base_name @ ''.pdf''))"
  then show "pdf_stage E overwrite aggregate_html_path html_dir pdf_dir base_name s
          = print (Info ''Skipping PDF conversion; rendered chat PDF artifacts already present'') s"
    by (simp add: pdf_stage_def)
next
  assume a: "\<not> overwrite
       \<and> exists_file s (joinpath text_dir (base_name @ ''.text''))
       \<and> exists_file s (joinpath json_dir (base_name @ ''.json''))
       \<and> exists_file s (joinpath pdf_dir (base_name @ ''.pdf''))"
  define s1 where "s1 = fold mkdir_parents [html_dir, markdown_dir, text_dir, json_dir, pdf_dir] s"
  have fr: "files s1 = files s" "clock s1 = clock s" "out s1 = out s"
    using mkdirs_frame[of "[html_dir, markdown_dir, text_dir, json_dir, pdf_dir]" s]
    by (simp_all add: s1_def)
  define m1 where "m1 = Info ''Skipping text conversion; rendered chat text artifacts already present''"
  define m2 where "m2 = Info ''Skipping JSON conversion; rendered chat JSON artifacts already present''"
  define m3 where "m3 = Info ''Skipping PDF conversion; rendered chat PDF artifacts already present''"
  define hp where "hp = resolve_payload aggregate_html_payload (joinpath html_dir (base_name @ ''.html'')) s1"
  define mp where "mp = resolve_payload aggregate_markdown_payload (joinpath markdown_dir (base_name @ ''.md'')) s1"
  have ex: "exists_file t p = exists_file s p" if "files t = files s" for t p
    using that by (rule exists_file_cong)
  have t1: "text_stage E overwrite h text_dir chunk_char_limit base_name s1 = Some (print m1 s1)" for h
    using a ex[OF fr(1)] by (simp add: text_stage_def m1_def)
  have t2: "json_stage E overwrite dataset_name h m text_dir html_dir markdown_dir json_dir
            chunk_char_limit source_url base_name (print m1 s1) = Some (print m2 (print m1 s1))" for h m
    using a ex[of "print m1 s1"] fr(1) by (simp add: json_stage_def m2_def print_frame2)
  have t3: "pdf_stage E overwrite p html_dir pdf_dir base_name (print m2 (print m1 s1))
            = print m3 (print m2 (print m1 s1))" for p
    using a ex[of "print m2 (print m1 s1)"] fr(1) by (simp add: pdf_stage_def m3_def print_frame2)
  show "\<exists>s'. fan_out_artifacts E dataset_name aggregate_html_payload aggregate_markdown_payload
                   html_dir markdown_dir text_dir json_dir pdf_dir chunk_char_limit overwrite
                   source_url base_name s = Some s'
                \<and> files s' = files s \<and> clock s' = clock s
                \<and> (aggregate_html_payload \<noteq> None \<and> aggregate_markdown_payload \<noteq> None
                    \<longrightarrow> out s' = out s @
                          [Info ''Skipping text conversion; rendered chat text artifacts already present'',
                           Info ''Skipping JSON conversion; rendered chat JSON artifacts already present'',
                           Info ''Skipping PDF conversion; rendered chat PDF artifacts already present''])"
  proof (cases "hp = None \<or> mp = None")
    case True
    then have "fan_out_artifacts E dataset_name aggregate_html_payload aggregate_markdown_payload
                   html_dir markdown_dir text_dir json_dir pdf_dir chunk_char_limit overwrite
                   source_url base_name s
        = Some (print (Warn (''Unable to locate aggregate HTML/Markdown for '' @ dataset_name
                                 @ ''; skipping artifact fan-out.'')) s1)"
      unfolding fan_out_artifacts_def Let_def s1_def[symmetric] hp_def[symmetric] mp_def[symmetric]
      by auto
    moreover from True have "aggregate_html_payload = None \<or> aggregate_markdown_payload = None"
      by (auto simp: hp_def mp_def resolve_payload_def split: if_splits)
    ultimately show ?thesis using fr by (auto simp: print_frame2)
  next
    case False
    then obtain h m where hm: "hp = Some h" "mp = Some m" by auto
    have "fan_out_artifacts E dataset_name aggregate_html_payload aggregate_markdown_payload
                   html_dir markdown_dir text_dir json_dir pdf_dir chunk_char_limit overwrite
                   source_url base_name s
        = Some (print m3 (print m2 (print m1 s1)))"
      unfolding fan_out_artifacts_def Let_def s1_def[symmetric] hp_def[symmetric] mp_def[symmetric]
      unfolding hm
      by (simp add: t1 t2 t3)
    then show ?thesis using fr by (simp add: print_frame2 print_out m1_def m2_def m3_def)
  qed
qed


theorem fan_out_skips_witness:
  "exists_file generated_state (joinpath ''out/text'' (''doc'' @ ''.text''))
   \<and> exists_file generated_state (joinpath ''out/json'' (''doc'' @ ''.json''))
   \<and> exists_file generated_state (joinpath ''out/pdf'' (''doc'' @ ''.pdf''))
   \<and> (\<exists>s'. fan_out_artifacts demo_env ''chat'' (Some ''<p>hi</p>'') (Some ''hi'')
               ''out/html'' ''out/markdown'' ''out/text'' ''out/json'' ''out/pdf'' 100 False
               None ''doc'' generated_state = Some s'
            \<and> files s' = files generated_state \<and> clock s' = clock generated_state
            \<and> out s' = out generated_state @
                  [Info ''Skipping text conversion; rendered chat text artifacts already present'',
                   Info ''Skipping JSON conversion; rendered chat JSON artifacts already present'',
                   Info ''Skipping PDF conversion; rendered chat PDF artifacts already present''])"
proof -
  have h: "exists_file generated_state (joinpath ''out/text'' (''doc'' @ ''.text''))"
    "exists_file generated_state (joinpath ''out/json'' (''doc'' @ ''.json''))"
    "exists_file generated_state (joinpath ''out/pdf'' (''doc'' @ ''.pdf''))"
    by (simp_all add: demo_paths exists_file_def generated_state_def)
  have p: "Some ''<p>hi</p>'' \<noteq> None \<and> Some ''hi'' \<noteq> None" by simp
  from fan_out_skips[where overwrite = False and s = generated_state and text_dir = "''out/text''"
      and json_dir = "''out/json''" and pdf_dir = "''out/pdf''" and base_name = "''doc''"
      and E = demo_env and dataset_name = "''chat''"
      and aggregate_html_payload = "Some ''<p>hi</p>''" and aggregate_markdown_payload = "Some ''hi''"
      and html_dir = "''out/html''" and markdown_dir = "''out/markdown''"
      and chunk_char_limit = 100 and source_url = None] h p
  have "\<exists>s'. fan_out_artifacts demo_env ''chat'' (Some ''<p>hi</p>'') (Some ''hi'')
               ''out/html'' ''out/markdown'' ''out/text'' ''out/json'' ''out/pdf'' 100 False
               None ''doc'' generated_state = Some s'
            \<and> files s' = files generated_state \<and> clock s' = clock generated_state
            \<and> out s' = out generated_state @
                  [Info ''Skipping text conversion; rendered chat text artifacts already present'',
                   Info ''Skipping JSON conversion; rendered chat JSON artifacts already present'',
                   Info ''Skipping PDF conversion; rendered chat PDF artifacts already present'']"
    by blast
  with h show ?thesis by (intro conjI)
qed

lemma json_part_fields:
  "ce_part (fst (json_part E ds jd b N hp mp rh rm i s)) = i
   \<and> ce_total_parts (fst (json_part E ds jd b N hp mp rh rm i s)) = N"
  by (simp add: json_part_def Let_def split_beta)

lemma json_parts_entries:
  assumes "\<And>i s. ce_part (fst (body i s)) = i \<and> ce_total_parts (fst (body i s)) = N"
  shows "\<exists>es. fst (json_parts body idxs acc s) = acc @ es \<and> length es = length idxs
            \<and> (\<forall>k < length idxs. ce_part (es ! k) = idxs ! k \<and> ce_total_parts (es ! k) = N)"
proof (induction idxs arbitrary: acc s)
  case Nil
  show ?case by simp
next
  case (Cons i rest)
  define e where "e = fst (body i s)"
  from Cons.IH[of "acc @ [e]" "snd (body i s)"] obtain es where es:
    "fst (json_parts body rest (acc @ [e]) (snd (body i s))) = (acc @ [e]) @ es"
    "length es = length rest"
    "\<forall>k < length rest. ce_part (es ! k) = rest ! k \<and> ce_total_parts (es ! k) = N"
    by blast
  have run: "fst (json_parts body (i # rest) acc s) = acc @ (e # es)"
    using es(1) by (simp add: split_beta e_def)
  have "ce_part ((e # es) ! k) = (i # rest) ! k \<and> ce_total_parts ((e # es) ! k) = N"
    if "k < length (i # rest)" for k
    using that es(3) assms[of i s] by (cases k) (simp_all add: e_def)
  with run es(2) show ?case by (intro exI[of _ "e # es"]) simp
qed

text \<open>
  Claim C2. For a positive limit the JSON generator returns, and the \<open>chunks\<close> array of
  the aggregate record it writes has as many entries as the aggregate HTML has chunks at
  that limit; entry \<open>k\<close> (counted from 0) carries the part number \<open>k + 1\<close> and the total
  \<open>N\<close>. The aggregate JSON file holds the serialisation of that record.
\<close>

theorem json_chunks_numbered:
  assumes "0 < chunk_char_limit"
  shows "\<exists>html_chunks agg s'.
     split_text_on_newlines aggregate_html chunk_char_limit = Some html_chunks
     \<and> generate_json_artifacts E dataset_name aggregate_html aggregate_markdown text_dir html_dir
          markdown_dir json_dir chunk_char_limit source_url base_name s = Some (agg, s')
     \<and> length (ja_chunks agg) = length html_chunks
     \<and> (\<forall>k < length html_chunks.
           ce_part (ja_chunks agg ! k) = k + 1
           \<and> ce_total_parts (ja_chunks agg ! k) = length html_chunks)
     \<and> read_file s' (joinpath json_dir (base_name @ ''.json'')) = Some (dumps_aggregate E agg)"
proof -
  from split_text_returns[OF assms, of aggregate_html] obtain html_chunks where
    h: "split_text_on_newlines aggregate_html chunk_char_limit = Some html_chunks" "html_chunks \<noteq> []"
    by blast
  from split_text_returns[OF assms, of aggregate_markdown] obtain md_chunks where
    m: "split_text_on_newlines aggregate_markdown chunk_char_limit = Some md_chunks" by blast
  define N where "N = length html_chunks"
  obtain rh where fh: "fallback_html_chunks aggregate_html chunk_char_limit source_url dataset_name
      = Some (N, rh)"
    using h by (simp add: fallback_html_chunks_def Let_def N_def)
  obtain rm where fm: "fallback_markdown_chunks aggregate_markdown chunk_char_limit source_url
      dataset_name N = Some rm"
    using m by (simp add: fallback_markdown_chunks_def Let_def)
  define s1 where "s1 = prepare_output_dir (glob E) json_dir
                 [base_name @ ''.json'', base_name @ ''_part_*.json''] s"
  define hp where "hp = index_paths E (sorted_glob E s1 html_dir (base_name @ ''_part_*_of_*.html''))"
  define mp where "mp = index_paths E (sorted_glob E s1 markdown_dir (base_name @ ''_part_*_of_*.md''))"
  define body where "body = json_part E dataset_name json_dir base_name N hp mp rh rm"
  obtain entries s2 where loop: "json_parts body [1..<Suc N] [] s1 = (entries, s2)"
    by (cases "json_parts body [1..<Suc N] [] s1") blast
  from json_parts_entries[of body N "[1..<Suc N]" "[]" s1] json_part_fields loop
  have ent: "length entries = N"
    "\<forall>k < N. ce_part (entries ! k) = [1..<Suc N] ! k \<and> ce_total_parts (entries ! k) = N"
    by (auto simp: body_def simp del: upt_Suc)
  have nth: "[1..<Suc N] ! k = k + 1" if "k < N" for k
    using that by (simp add: nth_upt del: upt_Suc)
  define agg where "agg = \<lparr>ja_dataset = dataset_name, ja_generated_at = now_iso E,
      ja_html = aggregate_html, ja_markdown = aggregate_markdown,
      ja_text = (case read_text_file s1 (joinpath text_dir (base_name @ ''.text'')) of
                   Some t \<Rightarrow> t | None \<Rightarrow> extract_plain_text E aggregate_html),
      ja_chunks = entries\<rparr>"
  define s4 where "s4 = print (Info (''Aggregate JSON written: '' @ joinpath json_dir (base_name @ ''.json'')))
      (write_file (joinpath json_dir (base_name @ ''.json'')) (dumps_aggregate E agg) s2)"
  have gen: "generate_json_artifacts E dataset_name aggregate_html aggregate_markdown text_dir html_dir
          markdown_dir json_dir chunk_char_limit source_url base_name s = Some (agg, s4)"
    unfolding generate_json_artifacts_def Let_def s1_def[symmetric] hp_def[symmetric]
      mp_def[symmetric] fh option.case prod.case fm body_def[symmetric] loop
      agg_def[symmetric] s4_def[symmetric] ..
  have rd: "read_file s4 (joinpath json_dir (base_name @ ''.json'')) = Some (dumps_aggregate E agg)"
    by (simp add: s4_def read_file_print read_after_write)
  have "length (ja_chunks agg) = N" using ent(1) by (simp add: agg_def)
  moreover have "\<forall>k < N. ce_part (ja_chunks agg ! k) = k + 1 \<and> ce_total_parts (ja_chunks agg ! k) = N"
    using ent(2) nth by (simp add: agg_def)
  ultimately show ?thesis using h(1) gen rd unfolding N_def by blast
qed

theorem json_chunks_numbered_witness:
  "(0::int) < 3
   \<and> (\<exists>html_chunks agg s'.
     split_text_on_newlines ''abcdefg'' 3 = Some html_chunks
     \<and> generate_json_artifacts demo_env ''chat'' ''abcdefg'' ''# md'' ''out/text'' ''out/html''
          ''out/markdown'' ''out/json'' 3 None ''doc'' fresh_state = Some (agg, s')
     \<and> length (ja_chunks agg) = length html_chunks
     \<and> (\<forall>k < length html_chunks.
           ce_part (ja_chunks agg ! k) = k + 1
           \<and> ce_total_parts (ja_chunks agg ! k) = length html_chunks)
     \<and> read_file s' (joinpath ''out/json'' (''doc'' @ ''.json'')) = Some (dumps_aggregate demo_env agg))
   \<and> split_text_on_newlines ''abcdefg'' 3 = Some [''abc'', ''def'', ''g'']"
proof -
  have h: "(0::int) < 3" by simp
  have v: "split_text_on_newlines ''abcdefg'' 3 = Some [''abc'', ''def'', ''g'']"
    by code_simp
  from json_chunks_numbered[OF h, of "''abcdefg''" demo_env "''chat''" "''# md''" "''out/text''"
      "''out/html''" "''out/markdown''" "''out/json''" None "''doc''" fresh_state] h v
  show ?thesis by blast
qed


end
